theory Spec2Isabelle
  imports Main "HOL-Library.Log_Nat"
begin

section \<open>Calls that may panic\<close>

text \<open>
  A Go call either returns or panics. \<open>Panicked msg\<close> is a panic that leaves the function
  (nothing in it recovers); \<open>msg\<close> is the panic value, a string wherever this package's
  callees panic.
\<close>

datatype 'a result = Returned 'a | Panicked string

section \<open>The float64 arithmetic of \<open>ExponentialBackoffMS\<close>\<close>

text \<open>
  \<open>ExponentialBackoffMS\<close> computes in \<open>float64\<close>. A float64 is modelled by the rational
  it denotes, or one of the three special values. The two zeros are one value
  \<open>Finite 0\<close>: no operation used here tells them apart (there is no division, and
  \<open>int(-0.0)\<close> is \<open>0\<close>).

  Go's \<open>int\<close>, 64 bits wide, is modelled by \<open>int\<close>; the places where the 64-bit range
  is left are written out (\<open>int_of_float64\<close>, \<open>int64_wrap\<close>). The attempt counters of the two
  supervisors are incremented only after a sleep of at least 1000 ms, so they stay
  far below \<open>2^63\<close> on every run and are plain integers here.
\<close>

datatype float64 = Finite rat | PosInf | NegInf | NaN

definition round_half_even :: "rat \<Rightarrow> int" where
  \<comment> \<open>the nearest integer; a tie goes to the even one\<close>
  "round_half_even x =
     (let f = \<lfloor>x\<rfloor>; d = x - of_int f
      in if d < 1 / 2 then f
         else if 1 / 2 < d then f + 1
         else if even f then f else f + 1)"

definition float64_round :: "rat \<Rightarrow> float64" where
  \<comment> \<open>IEEE 754 binary64, round to nearest, ties to even. \<open>m\<close> is the magnitude in units of
      \<open>2^-1074\<close>, the smallest subnormal; a float64 keeps the top 53 bits of it, so the low
      \<open>s\<close> bits are rounded away. A magnitude that rounds to \<open>2^1024\<close> or more overflows.\<close>
  "float64_round q =
     (let m = \<bar>q\<bar> * 2 ^ 1074;
          s = nat (bitlen \<lfloor>m\<rfloor> - 53);
          n = round_half_even (m / 2 ^ s) * 2 ^ s
      in if 2 ^ 2098 \<le> n then (if q < 0 then NegInf else PosInf)
         else Finite (sgn q * of_int n / 2 ^ 1074))"

definition float64_of_int :: "int \<Rightarrow> float64" where
  \<comment> \<open>the conversion \<open>float64(i)\<close>\<close>
  "float64_of_int i = float64_round (of_int i)"

definition Pow2 :: "float64 \<Rightarrow> float64" where
  \<comment> \<open>\<open>math.Pow(2, y)\<close> at an integral \<open>y\<close> (every float64 converted from an int is
      integral; the exponent is read through \<open>\<lfloor>_\<rfloor>\<close>). A power of two is a float64 from
      \<open>2^-1074\<close> to \<open>2^1023\<close>; above, Pow overflows to \<open>+Inf\<close>; below, it underflows to 0.\<close>
  "Pow2 y =
     (case y of
        NaN \<Rightarrow> NaN
      | PosInf \<Rightarrow> PosInf
      | NegInf \<Rightarrow> Finite 0
      | Finite e \<Rightarrow>
          if 1024 \<le> e then PosInf
          else if e < - 1074 then Finite 0
          else if 0 \<le> e then Finite (2 ^ nat \<lfloor>e\<rfloor>)
          else Finite (1 / 2 ^ nat (- \<lfloor>e\<rfloor>)))"

definition is_negative :: "float64 \<Rightarrow> bool" where
  "is_negative x = (case x of Finite q \<Rightarrow> q < 0 | NegInf \<Rightarrow> True | _ \<Rightarrow> False)"

definition f64_mul :: "float64 \<Rightarrow> float64 \<Rightarrow> float64" where
  \<comment> \<open>\<open>x * y\<close>\<close>
  "f64_mul x y =
     (case (x, y) of
        (Finite a, Finite b) \<Rightarrow> float64_round (a * b)
      | _ \<Rightarrow>
          if x = NaN \<or> y = NaN \<or> x = Finite 0 \<or> y = Finite 0 then NaN
          else if is_negative x = is_negative y then PosInf else NegInf)"

definition f64_add :: "float64 \<Rightarrow> float64 \<Rightarrow> float64" where
  \<comment> \<open>\<open>x + y\<close>\<close>
  "f64_add x y =
     (case (x, y) of
        (Finite a, Finite b) \<Rightarrow> float64_round (a + b)
      | (Finite a, _) \<Rightarrow> y
      | (_, Finite b) \<Rightarrow> x
      | _ \<Rightarrow> if x = y then x else NaN)"

definition f64_less :: "float64 \<Rightarrow> float64 \<Rightarrow> bool" where
  \<comment> \<open>\<open>x < y\<close>; false when either side is NaN\<close>
  "f64_less x y =
     (case (x, y) of
        (Finite a, Finite b) \<Rightarrow> a < b
      | (Finite a, PosInf) \<Rightarrow> True
      | (NegInf, Finite b) \<Rightarrow> True
      | (NegInf, PosInf) \<Rightarrow> True
      | _ \<Rightarrow> False)"

definition math_Min :: "float64 \<Rightarrow> float64 \<Rightarrow> float64" where
  \<comment> \<open>\<open>math.Min(x, y)\<close>: the special cases in the order of the library, then the smaller\<close>
  "math_Min x y =
     (if x = NegInf \<or> y = NegInf then NegInf
      else if x = NaN \<or> y = NaN then NaN
      else if f64_less x y then x else y)"

definition int_of_float64 :: "float64 \<Rightarrow> int option" where
  \<comment> \<open>the conversion \<open>int(x)\<close>: the fraction is dropped (towards zero). Where the value
      does not fit 64 bits the conversion still succeeds, but Go leaves its value to the
      implementation: \<open>None\<close>.\<close>
  "int_of_float64 x =
     (case x of
        Finite q \<Rightarrow>
          (let t = (if 0 \<le> q then \<lfloor>q\<rfloor> else \<lceil>q\<rceil>)
           in if - (2 ^ 63) \<le> t \<and> t < 2 ^ 63 then Some t else None)
      | _ \<Rightarrow> None)"

section \<open>The backoff calculator\<close>

definition Intn :: "int \<Rightarrow> int \<Rightarrow> int result" where
  \<comment> \<open>\<open>rand.Intn(n)\<close>, given the number \<open>draw\<close> the shared source yields on this call: it
      panics when \<open>n \<le> 0\<close>. The library promises \<open>0 \<le> draw < n\<close>.\<close>
  "Intn draw n = (if n \<le> 0 then Panicked ''invalid argument to Intn'' else Returned draw)"

definition ExponentialBackoffMS :: "int \<Rightarrow> int \<Rightarrow> int \<Rightarrow> int \<Rightarrow> int option result" where
  "ExponentialBackoffMS draw attempts jitterMS maxMS =
     (case Intn draw jitterMS of
        Panicked msg \<Rightarrow> Panicked msg
      | Returned r \<Rightarrow>
          (let randomMs = float64_of_int r
           in Returned (int_of_float64
                (math_Min
                   (f64_add (f64_mul (Pow2 (float64_of_int attempts)) (Finite 1000)) randomMs)
                   (float64_of_int maxMS)))))"

definition GetNextBackOffMilliseconds :: "int \<Rightarrow> int \<Rightarrow> int option result" where
  "GetNextBackOffMilliseconds draw attempts = ExponentialBackoffMS draw attempts 5000 64000"

section \<open>Events\<close>

text \<open>
  What a run does to the world, in order: it invokes the task, writes to the logger,
  prints a stack trace, sleeps. \<open>Slept d\<close> is \<open>time.Sleep(d)\<close> with \<open>d\<close> in nanoseconds;
  \<open>SleptImplDependent\<close> is a sleep whose duration came from a conversion Go leaves to the
  implementation.
\<close>

datatype event =
    Invoked
  | LogError string
  | LogWarn string
  | PrintStack
  | Slept int
  | SleptImplDependent

definition int64_wrap :: "int \<Rightarrow> int" where
  \<comment> \<open>the value of a 64-bit signed result: arithmetic on \<open>time.Duration\<close> wraps\<close>
  "int64_wrap x = (x + 2 ^ 63) mod 2 ^ 64 - 2 ^ 63"

definition Millisecond :: int where
  "Millisecond = 1000000"

definition Second :: int where
  "Second = 1000000000"

definition Backoff :: "int \<Rightarrow> int \<Rightarrow> int \<Rightarrow> int \<Rightarrow> event list result" where
  "Backoff draw attempts jitterMS maxMS =
     (case ExponentialBackoffMS draw attempts jitterMS maxMS of
        Panicked msg \<Rightarrow> Panicked msg
      | Returned None \<Rightarrow> Returned [SleptImplDependent]
      | Returned (Some backoff) \<Rightarrow> Returned [Slept (int64_wrap (backoff * Millisecond))])"

section \<open>The fault isolator\<close>

text \<open>
  One invocation of a \<open>Restartable\<close> either returns an \<open>error\<close> (\<open>None\<close> is \<open>nil\<close>) or
  panics; \<open>Panic v\<close> is an invocation that panicked, \<open>v\<close> being the value of type
  \<open>interface{}\<close> that the deferred \<open>recover()\<close> then yields (\<open>None\<close> is \<open>nil\<close>). Invocations
  that never come back are not modelled.

  An \<open>error\<close> is a value \<open>Err e\<close> of the task's own, or what \<open>fmt.Errorf\<close> built, known by
  its text. \<open>fmtv p\<close> is the text \<open>fmt\<close> prints for \<open>p\<close> under the verb \<open>%#v\<close>.
\<close>

datatype 'e error = Err 'e | Errorf string

datatype ('e, 'p) outcome = Return "'e error option" | Panic "'p option"

definition DontPanic ::
  "('p \<Rightarrow> string) \<Rightarrow> string \<Rightarrow> ('e, 'p) outcome \<Rightarrow> 'e error option \<times> event list" where
  "DontPanic fmtv opName f =
     (case f of
        Return err \<Rightarrow> (err, [Invoked])
      | Panic None \<Rightarrow> (None, [Invoked])
      | Panic (Some panicErr) \<Rightarrow>
          (Some (Errorf (fmtv panicErr)),
           [Invoked, LogError (''PANIC: OPNAME='' @ opName @ '' ERR='' @ fmtv panicErr),
            PrintStack]))"



section \<open>The supervisors\<close>

text \<open>
  A supervisor runs in a world that decides, for each pass through its loop, what the
  task does when invoked, what \<open>time.Since(start)\<close> reads afterwards (nanoseconds), and
  what \<open>rand.Intn\<close> yields if \<open>Backoff\<close> asks.
\<close>

record ('e, 'p) pass =
  task :: "('e, 'p) outcome"
  elapsed :: int
  draw :: int

definition jitter :: int where
  "jitter = 100"

definition maxBackoff :: int where
  "maxBackoff = 64000"

definition minFunctionRuntimeSecs :: int where
  "minFunctionRuntimeSecs = 60"

text \<open>
  The loops may run forever: \<open>None\<close> is a run that never returns. A run that returns gives
  its events and how it ended. \<open>i\<close> counts the passes, \<open>attempt\<close> is the loop's variable of
  that name, \<open>tr\<close> the events so far.
\<close>

partial_function (option) WithRestart_loop ::
  "('p \<Rightarrow> string) \<Rightarrow> string \<Rightarrow> (nat \<Rightarrow> ('e, 'p) pass) \<Rightarrow> nat \<Rightarrow> int \<Rightarrow> event list
     \<Rightarrow> (event list \<times> unit result) option" where
  [code]: "WithRestart_loop fmtv opName world i attempt tr =
     (case DontPanic fmtv opName (task (world i)) of
        (None, evs) \<Rightarrow> Some (tr @ evs, Returned ())
      | (Some err, evs) \<Rightarrow>
          if elapsed (world i) < minFunctionRuntimeSecs * Second then
            (case Backoff (draw (world i)) attempt jitter maxBackoff of
               Panicked msg \<Rightarrow> Some (tr @ evs, Panicked msg)
             | Returned slept \<Rightarrow>
                 WithRestart_loop fmtv opName world (Suc i) (attempt + 1)
                   (tr @ evs @ slept @ [LogWarn (''Restarting service '' @ opName)]))
          else
            WithRestart_loop fmtv opName world (Suc i) 0
              (tr @ evs @ [LogWarn (''Restarting service '' @ opName)]))"

definition WithRestart ::
  "('p \<Rightarrow> string) \<Rightarrow> string \<Rightarrow> (nat \<Rightarrow> ('e, 'p) pass) \<Rightarrow> (event list \<times> unit result) option" where
  "WithRestart fmtv opName world = WithRestart_loop fmtv opName world 0 0 []"

partial_function (option) UntilSuccessful_loop ::
  "('p \<Rightarrow> string) \<Rightarrow> string \<Rightarrow> (nat \<Rightarrow> ('e, 'p) pass) \<Rightarrow> nat \<Rightarrow> int \<Rightarrow> event list
     \<Rightarrow> (event list \<times> unit result) option" where
  [code]: "UntilSuccessful_loop fmtv opName world i attempt tr =
     (case DontPanic fmtv opName (task (world i)) of
        (None, evs) \<Rightarrow> Some (tr @ evs, Returned ())
      | (Some err, evs) \<Rightarrow>
          (case Backoff (draw (world i)) attempt jitter maxBackoff of
             Panicked msg \<Rightarrow>
               Some (tr @ evs
                       @ [LogWarn (''Operation '' @ opName
                            @ '' failed.  The operation will be retried.'')],
                     Panicked msg)
           | Returned slept \<Rightarrow>
               UntilSuccessful_loop fmtv opName world (Suc i) (attempt + 1)
                 (tr @ evs
                    @ [LogWarn (''Operation '' @ opName
                         @ '' failed.  The operation will be retried.'')]
                    @ slept
                    @ [LogWarn (''Retrying operation '' @ opName)])))"

definition UntilSuccessful ::
  "('p \<Rightarrow> string) \<Rightarrow> string \<Rightarrow> (nat \<Rightarrow> ('e, 'p) pass) \<Rightarrow> (event list \<times> unit result) option" where
  "UntilSuccessful fmtv opName world = UntilSuccessful_loop fmtv opName world 0 0 []"

text \<open>
  The supervisors count an invocation as failed when \<open>DontPanic\<close> reports an error: the
  task returned one, or panicked and \<open>recover()\<close> yielded a value other than \<open>nil\<close>.
\<close>

fun failing :: "('e, 'p) outcome \<Rightarrow> bool" where
  "failing (Return err) = (err \<noteq> None)"
| "failing (Panic v) = (v \<noteq> None)"

section \<open>Reading a run\<close>

text \<open>The sleeps of a run are its \<open>Slept\<close> events.\<close>

fun is_sleep :: "event \<Rightarrow> bool" where
  "is_sleep (Slept d) = True"
| "is_sleep SleptImplDependent = True"
| "is_sleep e = False"

section \<open>Example worlds\<close>

text \<open>
  Inputs for the examples. \<open>quote_plain s\<close> is what \<open>%#v\<close> prints for a string that needs
  no escaping: the string in double quotes. In \<open>fails_twice t\<close> the task returns an error,
  then panics with \<open>"boom"\<close>, then succeeds, and every pass takes \<open>t\<close> nanoseconds. In
  \<open>fails_thrice\<close> it returns an error three times, quickly but for the second time, and
  then succeeds. In \<open>fails_in_phases p n m\<close> it returns an error \<open>p\<close> times quickly, then \<open>n\<close>
  times after 61 seconds, then \<open>m\<close> times quickly, and then succeeds. In
  \<open>nil_panic_once panicnil\<close> it calls \<open>panic(nil)\<close> at its first invocation, under the
  given setting of the runtime, and succeeds at the second; \<open>sharp_v\<close> is \<open>%#v\<close> for what
  \<open>recover()\<close> may yield there.
\<close>

definition quote_plain :: "string \<Rightarrow> string" where
  "quote_plain s = [CHR 0x22] @ s @ [CHR 0x22]"

definition fails_twice :: "int \<Rightarrow> nat \<Rightarrow> (string, string) pass" where
  "fails_twice t i =
     \<lparr>task = (if i = 0 then Return (Some (Err ''unreachable''))
              else if i = 1 then Panic (Some ''boom'')
              else Return None),
      elapsed = t,
      draw = 42\<rparr>"

definition fails_thrice :: "nat \<Rightarrow> (string, string) pass" where
  "fails_thrice i =
     \<lparr>task = (if i < 3 then Return (Some (Err ''unreachable'')) else Return None),
      elapsed = (if i = 1 then 61 * Second else 250 * Millisecond),
      draw = 42\<rparr>"

definition fails_in_phases :: "nat \<Rightarrow> nat \<Rightarrow> nat \<Rightarrow> nat \<Rightarrow> (string, string) pass" where
  "fails_in_phases p n m i =
     \<lparr>task = (if i < p + n + m then Return (Some (Err ''unreachable'')) else Return None),
      elapsed = (if p \<le> i \<and> i < p + n then 61 * Second else 250 * Millisecond),
      draw = 42\<rparr>"



section \<open>Auxiliary notions for the proofs\<close>

text \<open>
  \<open>huge x\<close>: \<open>x\<close> is at least \<open>2^53\<close>, the point from which not every integer is a float64.
  \<open>nonneg x\<close>: \<open>x\<close> is at least 0.
\<close>

definition huge :: "float64 \<Rightarrow> bool" where
  "huge x = (case x of Finite y \<Rightarrow> 2 ^ 53 \<le> y | PosInf \<Rightarrow> True | _ \<Rightarrow> False)"

definition nonneg :: "float64 \<Rightarrow> bool" where
  "nonneg x = (case x of Finite y \<Rightarrow> 0 \<le> y | PosInf \<Rightarrow> True | _ \<Rightarrow> False)"

section \<open>Rounding to float64\<close>

lemma round_half_even_of_int: "round_half_even (of_int k) = k"
  by (simp add: round_half_even_def)

lemma round_half_even_ge: "of_int k \<le> x \<Longrightarrow> k \<le> round_half_even x"
proof -
  assume "of_int k \<le> x"
  then have "k \<le> \<lfloor>x\<rfloor>" by (simp add: le_floor_iff)
  then show ?thesis by (simp add: round_half_even_def Let_def)
qed

lemma float64_round_0: "float64_round 0 = Finite 0"
  by (simp add: float64_round_def round_half_even_def)

lemma float64_round_exact:
  fixes k :: int and e :: nat
  assumes "0 < k" "k < 2 ^ 53" "k * 2 ^ e < 2 ^ 1024"
  shows "float64_round (of_int k * 2 ^ e) = Finite (of_int k * 2 ^ e)"
proof -
  define M :: int where "M = k * 2 ^ (e + 1074)"
  define s where "s = nat (bitlen M - 53)"
  have m: "\<bar>rat_of_int k * 2 ^ e\<bar> * 2 ^ 1074 = of_int M"
    using assms(1) by (simp add: M_def power_add abs_mult)
  have bl: "bitlen M = bitlen k + int (e + 1074)"
    unfolding M_def using assms(1) by (rule bitlen_pow2)
  have "bitlen k \<le> 53"
    using assms(2) bitlen_le_iff_power[of k 53] by simp
  then have s_le: "s \<le> e + 1074"
    unfolding s_def bl by simp
  then have "M = (k * 2 ^ (e + 1074 - s)) * 2 ^ s"
    unfolding M_def by (simp add: power_add [symmetric])
  then have "rat_of_int M / 2 ^ s = of_int (k * 2 ^ (e + 1074 - s))"
    by simp
  then have r: "round_half_even (rat_of_int M / 2 ^ s) * 2 ^ s = M"
    using \<open>M = (k * 2 ^ (e + 1074 - s)) * 2 ^ s\<close> by (simp only: round_half_even_of_int)
  have "M < 2 ^ 1024 * 2 ^ 1074"
    unfolding M_def power_add using assms(3) by simp
  then have small: "\<not> 2 ^ 2098 \<le> M" by simp
  have q: "sgn (rat_of_int k * 2 ^ e) = 1"
    using assms(1) by (simp add: sgn_mult)
  have "float64_round (of_int k * 2 ^ e) = Finite (of_int M / 2 ^ 1074)"
    unfolding float64_round_def m Let_def floor_of_int s_def [symmetric] r q
    using small by simp
  also have "rat_of_int M / 2 ^ 1074 = of_int k * 2 ^ e"
    by (simp add: M_def power_add)
  finally show ?thesis .
qed

lemma float64_round_ge:
  fixes t :: nat
  assumes "2 ^ t \<le> q"
  shows "float64_round q = PosInf \<or> (\<exists>y. float64_round q = Finite y \<and> 2 ^ t \<le> y)"
    and "1024 \<le> t \<Longrightarrow> float64_round q = PosInf"
proof -
  define m where "m = \<bar>q\<bar> * 2 ^ 1074"
  define b where "b = bitlen \<lfloor>m\<rfloor>"
  define s where "s = nat (b - 53)"
  define n where "n = round_half_even (m / 2 ^ s) * 2 ^ s"
  have "(0::rat) < 2 ^ t" by simp
  then have qpos: "0 < q" using assms by linarith
  have m_ge: "2 ^ (t + 1074) \<le> m"
    unfolding m_def power_add using assms qpos by (simp add: mult_right_mono)
  then have fl_ge: "2 ^ (t + 1074) \<le> \<lfloor>m\<rfloor>"
    by (simp add: le_floor_iff)
  moreover have "(0::int) < 2 ^ (t + 1074)" by simp
  ultimately have fl_pos: "0 < \<lfloor>m\<rfloor>" by linarith
  from bitlen_bounds[OF fl_pos]
  have lo: "2 ^ nat (b - 1) \<le> \<lfloor>m\<rfloor>" and hi: "\<lfloor>m\<rfloor> < 2 ^ nat b"
    unfolding b_def by auto
  have "(2::int) ^ (t + 1074) < 2 ^ nat b" using fl_ge hi by linarith
  then have tb: "t + 1074 < nat b" by (simp add: power_strict_increasing_iff)
  then have b1: "1 \<le> b" by linarith
  have s_le: "s \<le> nat (b - 1)" unfolding s_def using b1 by linarith
  have "rat_of_int (2 ^ nat (b - 1)) \<le> m"
    using lo by (simp add: le_floor_iff)
  moreover have "(2::int) ^ nat (b - 1) = 2 ^ (nat (b - 1) - s) * 2 ^ s"
    using s_le by (simp add: power_add [symmetric])
  ultimately have "rat_of_int (2 ^ (nat (b - 1) - s)) * 2 ^ s \<le> m"
    by simp
  then have "rat_of_int (2 ^ (nat (b - 1) - s)) \<le> m / 2 ^ s"
    by (simp add: pos_le_divide_eq)
  then have "2 ^ (nat (b - 1) - s) \<le> round_half_even (m / 2 ^ s)"
    by (rule round_half_even_ge)
  then have "2 ^ (nat (b - 1) - s) * 2 ^ s \<le> n"
    unfolding n_def by (simp add: mult_right_mono)
  then have n_lo: "2 ^ nat (b - 1) \<le> n"
    using s_le by (simp add: power_add [symmetric])
  have "(2::int) ^ (t + 1074) \<le> 2 ^ nat (b - 1)"
    using tb by (intro power_increasing) auto
  then have n_ge: "2 ^ (t + 1074) \<le> n" using n_lo by linarith
  have fr: "float64_round q = (if 2 ^ 2098 \<le> n then PosInf else Finite (of_int n / 2 ^ 1074))"
    unfolding float64_round_def Let_def n_def s_def b_def m_def using qpos by simp
  have "rat_of_int (2 ^ (t + 1074)) \<le> of_int n" using n_ge by (simp only: of_int_le_iff)
  then have "2 ^ t * 2 ^ 1074 \<le> rat_of_int n"
    by (simp only: of_int_power of_int_numeral of_int_mult power_add)
  moreover have "(0::rat) < 2 ^ 1074" by (rule zero_less_power) simp
  ultimately have y: "2 ^ t \<le> rat_of_int n / 2 ^ 1074"
    by (simp only: pos_le_divide_eq)
  show "float64_round q = PosInf \<or> (\<exists>y. float64_round q = Finite y \<and> 2 ^ t \<le> y)"
  proof (cases "2 ^ 2098 \<le> n")
    case True
    then have "float64_round q = PosInf" unfolding fr by (simp only: if_True)
    then show ?thesis by blast
  next
    case False
    then have "float64_round q = Finite (of_int n / 2 ^ 1074)" unfolding fr by (simp only: if_False)
    with y show ?thesis by blast
  qed
  show "float64_round q = PosInf" if "1024 \<le> t"
  proof -
    have "(2::int) ^ 2098 \<le> 2 ^ (t + 1074)"
      using that by (intro power_increasing) auto
    then have "2 ^ 2098 \<le> n" using n_ge by linarith
    then show ?thesis unfolding fr by (simp only: if_True)
  qed
qed

lemma float64_of_int_exact:
  assumes "0 \<le> i" "i \<le> 2 ^ 53"
  shows "float64_of_int i = Finite (of_int i)"
proof -
  consider "i = 0" | "0 < i" "i < 2 ^ 53" | "i = 2 ^ 53"
    using assms by linarith
  then show ?thesis
  proof cases
    case 1
    then show ?thesis by (simp add: float64_of_int_def float64_round_0)
  next
    case 2
    then have "i * 2 ^ 0 < 2 ^ 1024" by simp
    from float64_round_exact[OF 2(1) 2(2) this] show ?thesis
      by (simp add: float64_of_int_def)
  next
    case 3
    have "float64_round (of_int 1 * 2 ^ 53) = Finite (of_int 1 * 2 ^ 53)"
      by (rule float64_round_exact) simp_all
    then show ?thesis by (simp add: float64_of_int_def 3)
  qed
qed

lemma float64_of_int_big:
  assumes "2 ^ 53 \<le> i"
  shows "float64_of_int i = PosInf \<or> (\<exists>y. float64_of_int i = Finite y \<and> 2 ^ 53 \<le> y)"
proof -
  have "rat_of_int (2 ^ 53) \<le> of_int i" using assms by (simp only: of_int_le_iff)
  then have "2 ^ 53 \<le> rat_of_int i" by simp
  then show ?thesis unfolding float64_of_int_def by (rule float64_round_ge(1))
qed

text \<open>A converted \<open>int\<close> is integral: \<open>Pow2\<close> loses nothing by reading its exponent through \<open>\<lfloor>_\<rfloor>\<close>.\<close>

lemma float64_of_int_integral:
  assumes "float64_of_int i = Finite q"
  shows "q = of_int \<lfloor>q\<rfloor>"
proof -
  define M :: int where "M = \<bar>i\<bar> * 2 ^ 1074"
  define s where "s = nat (bitlen M - 53)"
  define n where "n = round_half_even (rat_of_int M / 2 ^ s) * 2 ^ s"
  have m: "\<bar>rat_of_int i\<bar> * 2 ^ 1074 = of_int M"
    by (simp add: M_def)
  have U: "(2::rat) ^ 1074 \<noteq> 0" by (rule power_not_zero) simp
  have fr: "float64_of_int i
      = (if 2 ^ 2098 \<le> n then (if rat_of_int i < 0 then NegInf else PosInf)
         else Finite (sgn (rat_of_int i) * of_int n / 2 ^ 1074))"
    unfolding float64_of_int_def float64_round_def Let_def m floor_of_int
      s_def [symmetric] n_def [symmetric] ..
  with assms have q: "q = sgn (rat_of_int i) * of_int n / 2 ^ 1074"
    by (simp split: if_splits)
  have "\<exists>j. rat_of_int n / 2 ^ 1074 = of_int j"
  proof (cases "s \<le> 1074")
    case True
    then have "M = (\<bar>i\<bar> * 2 ^ (1074 - s)) * 2 ^ s"
      unfolding M_def by (simp add: power_add [symmetric])
    then have "rat_of_int M / 2 ^ s = of_int (\<bar>i\<bar> * 2 ^ (1074 - s))"
      by simp
    then have "n = M"
      unfolding n_def using \<open>M = (\<bar>i\<bar> * 2 ^ (1074 - s)) * 2 ^ s\<close>
      by (simp only: round_half_even_of_int)
    then have "rat_of_int n / 2 ^ 1074 = rat_of_int \<bar>i\<bar> * 2 ^ 1074 / 2 ^ 1074"
      by (simp only: M_def of_int_mult of_int_power of_int_numeral)
    also have "\<dots> = of_int \<bar>i\<bar>"
      using U by (rule nonzero_mult_div_cancel_right)
    finally show ?thesis by blast
  next
    case False
    define r where "r = round_half_even (rat_of_int M / 2 ^ s)"
    from False have "s = (s - 1074) + 1074" by simp
    then have "(2::int) ^ s = 2 ^ (s - 1074) * 2 ^ 1074"
      by (metis power_add)
    then have "n = (r * 2 ^ (s - 1074)) * 2 ^ 1074"
      unfolding n_def r_def by (simp only: mult.assoc)
    then have "rat_of_int n / 2 ^ 1074 = rat_of_int (r * 2 ^ (s - 1074)) * 2 ^ 1074 / 2 ^ 1074"
      by (simp only: of_int_mult of_int_power of_int_numeral)
    also have "\<dots> = of_int (r * 2 ^ (s - 1074))"
      using U by (rule nonzero_mult_div_cancel_right)
    finally show ?thesis by blast
  qed
  then obtain j where j: "rat_of_int n / 2 ^ 1074 = of_int j" by blast
  have "q = of_int (sgn i * j)"
  proof -
    have "q = sgn (rat_of_int i) * (rat_of_int n / 2 ^ 1074)" unfolding q by simp
    also have "\<dots> = of_int (sgn i) * of_int j"
      unfolding j by (cases "i < 0"; cases "i = 0") (simp_all add: sgn_if)
    finally show ?thesis by simp
  qed
  then show ?thesis by simp
qed

lemma Pow2_float64_of_int_small:
  assumes "0 \<le> a" "a < 1024"
  shows "Pow2 (float64_of_int a) = Finite (2 ^ nat a)"
proof -
  have "float64_of_int a = Finite (of_int a)"
    using assms by (intro float64_of_int_exact) auto
  then show ?thesis using assms by (simp add: Pow2_def)
qed

lemma Pow2_float64_of_int_large:
  assumes "1024 \<le> a"
  shows "Pow2 (float64_of_int a) = PosInf"
proof (cases "a \<le> 2 ^ 53")
  case True
  then have "float64_of_int a = Finite (of_int a)"
    using assms by (intro float64_of_int_exact) auto
  then show ?thesis using assms by (simp add: Pow2_def)
next
  case False
  then have "2 ^ 53 \<le> a" by simp
  from float64_of_int_big[OF this] show ?thesis
    by (auto simp: Pow2_def)
qed

lemma base_term_exact:
  assumes "0 \<le> a" "a \<le> 1014"
  shows "f64_mul (Pow2 (float64_of_int a)) (Finite 1000) = Finite (2 ^ nat a * 1000)"
proof -
  have p: "Pow2 (float64_of_int a) = Finite (2 ^ nat a)"
    using assms by (intro Pow2_float64_of_int_small) auto
  have "(125::int) * 2 ^ (nat a + 3) < 2 ^ 7 * 2 ^ (nat a + 3)"
    by (intro mult_strict_right_mono) auto
  also have "\<dots> = 2 ^ (nat a + 10)" by (simp add: power_add)
  also have "\<dots> \<le> 2 ^ 1024" using assms by (intro power_increasing) auto
  finally have "(125::int) * 2 ^ (nat a + 3) < 2 ^ 1024" .
  then have "float64_round (of_int 125 * 2 ^ (nat a + 3)) = Finite (of_int 125 * 2 ^ (nat a + 3))"
    by (intro float64_round_exact) auto
  moreover have "rat_of_int 125 * 2 ^ (nat a + 3) = 2 ^ nat a * 1000"
    by (simp add: power_add)
  ultimately have "float64_round (2 ^ nat a * 1000) = Finite (2 ^ nat a * 1000)"
    by (simp only:)
  then show ?thesis by (simp add: f64_mul_def p)
qed

lemma base_term_overflow:
  assumes "1015 \<le> a"
  shows "f64_mul (Pow2 (float64_of_int a)) (Finite 1000) = PosInf"
proof (cases "a < 1024")
  case True
  then have p: "Pow2 (float64_of_int a) = Finite (2 ^ nat a)"
    using assms by (intro Pow2_float64_of_int_small) auto
  have "(2::rat) ^ 1024 = 2 ^ 1015 * 2 ^ 9" by (simp add: power_add [symmetric])
  also have "\<dots> \<le> 2 ^ nat a * 2 ^ 9"
    using assms by (intro mult_right_mono power_increasing) auto
  also have "\<dots> \<le> 2 ^ nat a * 1000"
    by (intro mult_left_mono) auto
  finally have "(2::rat) ^ 1024 \<le> 2 ^ nat a * 1000" .
  then have "float64_round (2 ^ nat a * 1000) = PosInf"
    by (rule float64_round_ge(2)) simp
  then show ?thesis by (simp add: f64_mul_def p)
next
  case False
  then have "Pow2 (float64_of_int a) = PosInf"
    by (intro Pow2_float64_of_int_large) auto
  then show ?thesis by (simp add: f64_mul_def is_negative_def)
qed

lemma base_term_big:
  assumes "44 \<le> a"
  shows "f64_mul (Pow2 (float64_of_int a)) (Finite 1000) = PosInf
    \<or> (\<exists>y. f64_mul (Pow2 (float64_of_int a)) (Finite 1000) = Finite y \<and> 2 ^ 53 \<le> y)"
proof (cases "a \<le> 1014")
  case True
  have "(2::rat) ^ 53 = 2 ^ 44 * 2 ^ 9" by (simp add: power_add [symmetric])
  also have "\<dots> \<le> 2 ^ nat a * 2 ^ 9"
    using assms by (intro mult_right_mono power_increasing) auto
  also have "\<dots> \<le> 2 ^ nat a * 1000"
    by (intro mult_left_mono) auto
  finally have "(2::rat) ^ 53 \<le> 2 ^ nat a * 1000" .
  with base_term_exact[of a] True assms show ?thesis by auto
next
  case False
  then show ?thesis using base_term_overflow[of a] by auto
qed

lemma huge_float64_round: "2 ^ 53 \<le> q \<Longrightarrow> huge (float64_round q)"
  using float64_round_ge(1)[of 53 q] by (auto simp: huge_def)

lemma huge_nonneg: "huge x \<Longrightarrow> nonneg x"
proof (cases x)
  case (Finite y)
  assume "huge x"
  then have "2 ^ 53 \<le> y" by (simp add: huge_def Finite)
  moreover have "(0::rat) \<le> 2 ^ 53" by simp
  ultimately have "0 \<le> y" by (rule order_trans [rotated])
  then show ?thesis by (simp add: nonneg_def Finite)
qed (simp_all add: huge_def nonneg_def)

lemma huge_add_left: "huge x \<Longrightarrow> nonneg y \<Longrightarrow> huge (f64_add x y)"
  by (cases x; cases y) (auto simp: huge_def nonneg_def f64_add_def intro!: huge_float64_round [unfolded huge_def])

lemma huge_add_right: "nonneg x \<Longrightarrow> huge y \<Longrightarrow> huge (f64_add x y)"
  by (cases x; cases y) (auto simp: huge_def nonneg_def f64_add_def intro!: huge_float64_round [unfolded huge_def])

lemma math_Min_huge:
  assumes "huge x" "m \<le> 2 ^ 53"
  shows "math_Min x (Finite m) = Finite m"
  using assms by (cases x) (auto simp: huge_def math_Min_def f64_less_def)

lemma float64_of_int_huge: "2 ^ 53 \<le> i \<Longrightarrow> huge (float64_of_int i)"
  using float64_of_int_big[of i] by (auto simp: huge_def)

lemma base_term_huge: "44 \<le> a \<Longrightarrow> huge (f64_mul (Pow2 (float64_of_int a)) (Finite 1000))"
  using base_term_big[of a] by (auto simp: huge_def)

lemma int_of_float64_of_int:
  "- (2 ^ 63) \<le> i \<Longrightarrow> i < 2 ^ 63 \<Longrightarrow> int_of_float64 (Finite (of_int i)) = Some i"
  by (simp add: int_of_float64_def)

lemma sum_cases:
  assumes "0 \<le> a" "0 \<le> d"
  defines "E \<equiv> 2 ^ nat a * 1000 + d"
  defines "S \<equiv> f64_add (f64_mul (Pow2 (float64_of_int a)) (Finite 1000)) (float64_of_int d)"
  shows "(E \<le> 2 ^ 53 \<and> S = Finite (of_int E)) \<or> (2 ^ 53 \<le> E \<and> huge S)"
proof -
  have d_cases: "(d \<le> 2 ^ 53 \<and> float64_of_int d = Finite (of_int d)) \<or> (2 ^ 53 \<le> d \<and> huge (float64_of_int d))"
    using float64_of_int_exact[of d] float64_of_int_huge[of d] assms(2) by linarith
  have nn_d: "nonneg (float64_of_int d)"
    using d_cases assms(2) huge_nonneg by (auto simp: nonneg_def)
  have pw: "(0::int) \<le> 2 ^ nat a * 1000" by simp
  show ?thesis
  proof (cases "a \<le> 43")
    case True
    then have B: "f64_mul (Pow2 (float64_of_int a)) (Finite 1000) = Finite (2 ^ nat a * 1000)"
      using assms(1) by (intro base_term_exact) auto
    have nn_B: "nonneg (Finite (2 ^ nat a * 1000))" by (simp add: nonneg_def)
    from d_cases show ?thesis
    proof
      assume dd: "d \<le> 2 ^ 53 \<and> float64_of_int d = Finite (of_int d)"
      then have "S = float64_round (2 ^ nat a * 1000 + of_int d)"
        by (simp add: S_def B f64_add_def)
      moreover have "float64_of_int E = float64_round (2 ^ nat a * 1000 + of_int d)"
        by (simp add: float64_of_int_def E_def)
      ultimately have S: "S = float64_of_int E" by simp
      have "0 \<le> E" unfolding E_def using assms(2) pw by linarith
      then show ?thesis
        using float64_of_int_exact[of E] float64_of_int_huge[of E] unfolding S by linarith
    next
      assume dd: "2 ^ 53 \<le> d \<and> huge (float64_of_int d)"
      then have "huge S" unfolding S_def B using nn_B by (intro huge_add_right) auto
      moreover have "2 ^ 53 \<le> E" unfolding E_def using dd pw by linarith
      ultimately show ?thesis by blast
    qed
  next
    case False
    then have a44: "44 \<le> a" by simp
    then have "huge S" unfolding S_def using nn_d by (intro huge_add_left base_term_huge)
    moreover have "2 ^ 53 \<le> E"
    proof -
      have "(2::int) ^ 53 = 2 ^ 44 * 2 ^ 9" by (simp add: power_add [symmetric])
      also have "\<dots> \<le> 2 ^ nat a * 2 ^ 9"
        using a44 by (intro mult_right_mono power_increasing) auto
      also have "\<dots> \<le> 2 ^ nat a * 1000"
        by (intro mult_left_mono) auto
      finally show ?thesis unfolding E_def using assms(2) by linarith
    qed
    ultimately show ?thesis by blast
  qed
qed

lemma ExponentialBackoffMS_exact:
  assumes "0 \<le> attempts" "0 \<le> d" "d < jitterMS" "0 < maxMS" "maxMS \<le> 2 ^ 53"
  shows "ExponentialBackoffMS d attempts jitterMS maxMS
           = Returned (Some (min (2 ^ nat attempts * 1000 + d) maxMS))"
proof -
  define E where "E = 2 ^ nat attempts * 1000 + d"
  define S where "S = f64_add (f64_mul (Pow2 (float64_of_int attempts)) (Finite 1000)) (float64_of_int d)"
  have intn: "Intn d jitterMS = Returned d"
    using assms(2,3) by (simp add: Intn_def)
  have fm: "float64_of_int maxMS = Finite (of_int maxMS)"
    using assms(4,5) by (intro float64_of_int_exact) auto
  have eb: "ExponentialBackoffMS d attempts jitterMS maxMS
              = Returned (int_of_float64 (math_Min S (Finite (of_int maxMS))))"
    by (simp add: ExponentialBackoffMS_def intn fm S_def)
  have E0: "0 \<le> E" unfolding E_def using assms(2) by simp
  have m63: "maxMS < 2 ^ 63" using assms(5) by simp
  from sum_cases[OF assms(1,2)]
  have "(E \<le> 2 ^ 53 \<and> S = Finite (of_int E)) \<or> (2 ^ 53 \<le> E \<and> huge S)"
    unfolding E_def S_def .
  then have "math_Min S (Finite (of_int maxMS)) = Finite (of_int (min E maxMS))"
  proof
    assume "E \<le> 2 ^ 53 \<and> S = Finite (of_int E)"
    then show ?thesis by (auto simp: math_Min_def f64_less_def min_def)
  next
    assume h: "2 ^ 53 \<le> E \<and> huge S"
    have "rat_of_int maxMS \<le> of_int (2 ^ 53)" using assms(5) by (simp only: of_int_le_iff)
    then have "rat_of_int maxMS \<le> 2 ^ 53" by simp
    with h have "math_Min S (Finite (of_int maxMS)) = Finite (of_int maxMS)"
      by (intro math_Min_huge) auto
    moreover have "min E maxMS = maxMS" using h assms(5) by simp
    ultimately show ?thesis by simp
  qed
  moreover have "int_of_float64 (Finite (of_int (min E maxMS))) = Some (min E maxMS)"
    using E0 assms(4) m63 by (intro int_of_float64_of_int) auto
  ultimately show ?thesis unfolding eb E_def by simp
qed

section \<open>Sleeping\<close>

lemma Backoff_returns:
  "\<exists>slept. Backoff d attempt jitter maxBackoff = Returned slept
      \<and> count_list slept Invoked = 0"
  by (simp add: Backoff_def ExponentialBackoffMS_def Intn_def jitter_def Let_def
      split: option.split)

lemma int64_wrap_id:
  assumes "- (2 ^ 63) \<le> x" "x < 2 ^ 63"
  shows "int64_wrap x = x"
proof -
  have "0 \<le> x + 2 ^ 63" "x + 2 ^ 63 < 2 ^ 64" using assms by simp_all
  then have "(x + 2 ^ 63) mod 2 ^ 64 = x + 2 ^ 63" by (rule mod_pos_pos_trivial)
  then show ?thesis unfolding int64_wrap_def by simp
qed

lemma Backoff_supervised:
  assumes "0 \<le> attempt" "0 \<le> d" "d < jitter"
  shows "Backoff d attempt jitter maxBackoff
           = Returned [Slept (min (2 ^ nat attempt * 1000 + d) 64000 * 1000000)]"
proof -
  have "ExponentialBackoffMS d attempt jitter maxBackoff
          = Returned (Some (min (2 ^ nat attempt * 1000 + d) maxBackoff))"
    using assms by (intro ExponentialBackoffMS_exact) (auto simp: maxBackoff_def)
  moreover have "int64_wrap (min (2 ^ nat attempt * 1000 + d) 64000 * 1000000)
                   = min (2 ^ nat attempt * 1000 + d) 64000 * 1000000"
  proof -
    define b where "b = min (2 ^ nat attempt * 1000 + d) 64000"
    have "0 \<le> b" "b \<le> 64000" unfolding b_def using assms(2) by simp_all
    then have "- (2 ^ 63) \<le> b * 1000000" "b * 1000000 < 2 ^ 63" by simp_all
    then show ?thesis unfolding b_def [symmetric] by (rule int64_wrap_id)
  qed
  ultimately show ?thesis by (simp add: Backoff_def Millisecond_def maxBackoff_def)
qed

section \<open>Rounding at concrete inputs\<close>

lemma bitlen_eq:
  fixes w :: nat
  assumes "2 ^ w \<le> i" "i < 2 ^ Suc w"
  shows "bitlen i = int w + 1"
proof -
  have "0 \<le> i - 2 ^ w" "i - 2 ^ w < 2 ^ w" using assms by simp_all
  then have "bitlen (2 ^ w + (i - 2 ^ w)) = int w + 1"
    using bitlen_twopow_add_eq[of "i - 2 ^ w" w] by simp
  then show ?thesis by simp
qed

lemma round_half_even_div:
  fixes i p :: int
  assumes "0 < p"
  shows "round_half_even (of_int i / of_int p)
           = (let f = i div p; r = i mod p
              in if 2 * r < p then f else if p < 2 * r then f + 1
                 else if even f then f else f + 1)"
proof -
  have fl: "\<lfloor>rat_of_int i / of_int p\<rfloor> = i div p"
    by (rule floor_divide_of_int_eq)
  have "rat_of_int i = of_int (i div p * p + i mod p)" by simp
  then have "rat_of_int i = of_int (i div p) * of_int p + of_int (i mod p)"
    by (simp only: of_int_add of_int_mult)
  then have d: "rat_of_int i / of_int p - of_int (i div p) = of_int (i mod p) / of_int p"
    using assms by (simp add: field_simps)
  have pp: "(0::rat) < of_int p" using assms by simp
  have lt: "(rat_of_int (i mod p) / of_int p < 1 / 2) = (2 * (i mod p) < p)"
  proof -
    have "(rat_of_int (i mod p) / of_int p < 1 / 2) = (rat_of_int (2 * (i mod p)) < of_int p)"
      using pp by (simp add: field_simps)
    then show ?thesis by (simp only: of_int_less_iff)
  qed
  have gt: "(1 / 2 < rat_of_int (i mod p) / of_int p) = (p < 2 * (i mod p))"
  proof -
    have "(1 / 2 < rat_of_int (i mod p) / of_int p) = (rat_of_int p < of_int (2 * (i mod p)))"
      using pp by (simp add: field_simps)
    then show ?thesis by (simp only: of_int_less_iff)
  qed
  show ?thesis
    unfolding round_half_even_def Let_def fl d lt gt ..
qed

lemma float64_round_int_aux:
  fixes w :: nat
  assumes "2 ^ w \<le> i" "i < 2 ^ Suc w" "52 \<le> w"
  shows "float64_round (of_int i)
           = (let n = round_half_even (of_int i / 2 ^ (w - 52)) * 2 ^ (w - 52)
              in if 2 ^ 1024 \<le> n then PosInf else Finite (of_int n))"
proof -
  define s where "s = w - 52"
  define M where "M = i * 2 ^ 1074"
  define n where "n = round_half_even (rat_of_int i / 2 ^ s) * 2 ^ s"
  have "(0::int) < 2 ^ w" by simp
  then have ipos: "0 < i" using assms(1) by linarith
  have m: "\<bar>rat_of_int i\<bar> * 2 ^ 1074 = of_int M"
    using ipos by (simp add: M_def)
  have "bitlen M = bitlen i + int 1074"
    unfolding M_def using ipos by (rule bitlen_pow2)
  then have "bitlen M = int w + 1 + 1074" using bitlen_eq[OF assms(1,2)] by simp
  then have s': "nat (bitlen M - 53) = s + 1074"
    unfolding s_def using assms(3) by simp
  have "(0::rat) < 2 ^ 1074" by (rule zero_less_power) simp
  then have q: "rat_of_int M / (2 ^ s * 2 ^ 1074) = rat_of_int i / 2 ^ s"
    unfolding M_def by simp
  have sg: "sgn (rat_of_int i) = 1" using ipos by simp
  have neg: "\<not> rat_of_int i < 0" using ipos by simp
  have ov: "(2 ^ 2098 \<le> n * 2 ^ 1074) = (2 ^ 1024 \<le> n)"
  proof -
    have "(2::int) ^ 2098 = 2 ^ 1024 * 2 ^ 1074" by (simp add: power_add [symmetric])
    moreover have "(0::int) < 2 ^ 1074" by (rule zero_less_power) simp
    ultimately show ?thesis by (simp only: mult_le_cancel_right_pos)
  qed
  have "rat_of_int n * 2 ^ 1074 / 2 ^ 1074 = of_int n"
    by (rule nonzero_mult_div_cancel_right) (rule power_not_zero, simp)
  then have val: "rat_of_int (n * 2 ^ 1074) / 2 ^ 1074 = of_int n"
    by (simp only: of_int_mult of_int_power of_int_numeral)
  have "float64_round (of_int i)
          = (if 2 ^ 2098 \<le> n * 2 ^ 1074 then PosInf else Finite (1 * rat_of_int (n * 2 ^ 1074) / 2 ^ 1074))"
    unfolding float64_round_def Let_def m floor_of_int s' q sg n_def power_add
    using neg by (simp only: if_False mult.assoc)
  then show ?thesis
    unfolding ov Let_def n_def [symmetric] s_def [symmetric] mult_1 val .
qed

lemma float64_round_int:
  fixes w :: nat
  assumes "2 ^ w \<le> i" "i < 2 ^ Suc w" "52 \<le> w"
  shows "float64_round (of_int i)
           = (let p = 2 ^ (w - 52); f = i div p; r = i mod p;
                  n = (if 2 * r < p then f else if p < 2 * r then f + 1
                       else if even f then f else f + 1) * p
              in if 2 ^ 1024 \<le> n then PosInf else Finite (of_int n))"
proof -
  have "round_half_even (of_int i / of_int (2 ^ (w - 52)))
           = (let f = i div 2 ^ (w - 52); r = i mod 2 ^ (w - 52)
              in if 2 * r < 2 ^ (w - 52) then f else if 2 ^ (w - 52) < 2 * r then f + 1
                 else if even f then f else f + 1)"
    by (rule round_half_even_div) simp
  then have "round_half_even (of_int i / 2 ^ (w - 52))
           = (let f = i div 2 ^ (w - 52); r = i mod 2 ^ (w - 52)
              in if 2 * r < 2 ^ (w - 52) then f else if 2 ^ (w - 52) < 2 * r then f + 1
                 else if even f then f else f + 1)"
    by (simp only: of_int_power of_int_numeral)
  then show ?thesis
    unfolding float64_round_int_aux[OF assms] Let_def by (simp only:)
qed

lemma ExponentialBackoffMS_steps:
  assumes "0 < j"
    and "f64_mul (Pow2 (float64_of_int a)) (Finite 1000) = B"
    and "float64_of_int d = R"
    and "f64_add B R = S"
    and "float64_of_int m = M"
    and "math_Min S M = X"
    and "int_of_float64 X = v"
  shows "ExponentialBackoffMS d a j m = Returned v"
  using assms by (simp add: ExponentialBackoffMS_def Intn_def)

lemma float64_of_int_2_53_1: "float64_of_int (2 ^ 53 + 1) = Finite (2 ^ 53)"
proof -
  have "float64_round (of_int (2 ^ 53 + 1))
           = (let p = 2 ^ (53 - 52); f = (2 ^ 53 + 1) div p; r = (2 ^ 53 + 1) mod p;
                  n = (if 2 * r < p then f else if p < 2 * r then f + 1
                       else if even f then f else f + 1) * p
              in if 2 ^ 1024 \<le> n then PosInf else Finite (of_int n))"
    by (rule float64_round_int) simp_all
  then show ?thesis
    by (simp add: float64_of_int_def Let_def)
qed

lemma float64_of_int_2_53_3: "float64_of_int (2 ^ 53 + 3) = Finite (2 ^ 53 + 4)"
proof -
  have "float64_round (of_int (2 ^ 53 + 3))
           = (let p = 2 ^ (53 - 52); f = (2 ^ 53 + 3) div p; r = (2 ^ 53 + 3) mod p;
                  n = (if 2 * r < p then f else if p < 2 * r then f + 1
                       else if even f then f else f + 1) * p
              in if 2 ^ 1024 \<le> n then PosInf else Finite (of_int n))"
    by (rule float64_round_int) simp_all
  then show ?thesis
    by (simp add: float64_of_int_def Let_def)
qed

lemma float64_of_int_maxint: "float64_of_int (2 ^ 63 - 1) = Finite (2 ^ 63)"
proof -
  have "float64_round (of_int (2 ^ 63 - 1))
           = (let p = 2 ^ (62 - 52); f = (2 ^ 63 - 1) div p; r = (2 ^ 63 - 1) mod p;
                  n = (if 2 * r < p then f else if p < 2 * r then f + 1
                       else if even f then f else f + 1) * p
              in if 2 ^ 1024 \<le> n then PosInf else Finite (of_int n))"
    by (rule float64_round_int) simp_all
  then show ?thesis
    by (simp add: float64_of_int_def Let_def)
qed

lemma sum_50_127:
  "f64_add (Finite (2 ^ 50 * 1000)) (Finite 127) = Finite (2 ^ 50 * 1000 + 128)"
proof -
  have "float64_round (of_int (2 ^ 50 * 1000 + 127))
           = (let p = 2 ^ (59 - 52); f = (2 ^ 50 * 1000 + 127) div p; r = (2 ^ 50 * 1000 + 127) mod p;
                  n = (if 2 * r < p then f else if p < 2 * r then f + 1
                       else if even f then f else f + 1) * p
              in if 2 ^ 1024 \<le> n then PosInf else Finite (of_int n))"
    by (rule float64_round_int) simp_all
  then show ?thesis
    by (simp add: f64_add_def Let_def)
qed

lemma sum_60_0:
  "f64_add (Finite (2 ^ 60 * 1000)) (Finite 0) = Finite (2 ^ 60 * 1000)"
proof -
  have "float64_round (of_int 125 * 2 ^ 63) = Finite (of_int 125 * 2 ^ 63)"
    by (rule float64_round_exact) simp_all
  then show ?thesis by (simp add: f64_add_def)
qed

lemma EB_cap_rounds_down: "ExponentialBackoffMS 0 60 1 (2 ^ 53 + 1) = Returned (Some (2 ^ 53))"
proof (rule ExponentialBackoffMS_steps)
  show "f64_mul (Pow2 (float64_of_int 60)) (Finite 1000) = Finite (2 ^ nat 60 * 1000)"
    by (rule base_term_exact) simp_all
  show "float64_of_int 0 = Finite (of_int 0)" by (rule float64_of_int_exact) simp_all
  show "f64_add (Finite (2 ^ nat 60 * 1000)) (Finite (of_int 0)) = Finite (2 ^ 60 * 1000)"
    using sum_60_0 by simp
  show "float64_of_int (2 ^ 53 + 1) = Finite (2 ^ 53)" by (rule float64_of_int_2_53_1)
  show "math_Min (Finite (2 ^ 60 * 1000)) (Finite (2 ^ 53)) = Finite (2 ^ 53)"
    by (simp add: math_Min_def f64_less_def)
  show "int_of_float64 (Finite (2 ^ 53)) = Some (2 ^ 53)"
    by (simp add: int_of_float64_def)
qed simp

lemma EB_cap_rounds_up: "ExponentialBackoffMS 0 60 1 (2 ^ 53 + 3) = Returned (Some (2 ^ 53 + 4))"
proof (rule ExponentialBackoffMS_steps)
  show "f64_mul (Pow2 (float64_of_int 60)) (Finite 1000) = Finite (2 ^ nat 60 * 1000)"
    by (rule base_term_exact) simp_all
  show "float64_of_int 0 = Finite (of_int 0)" by (rule float64_of_int_exact) simp_all
  show "f64_add (Finite (2 ^ nat 60 * 1000)) (Finite (of_int 0)) = Finite (2 ^ 60 * 1000)"
    using sum_60_0 by simp
  show "float64_of_int (2 ^ 53 + 3) = Finite (2 ^ 53 + 4)" by (rule float64_of_int_2_53_3)
  show "math_Min (Finite (2 ^ 60 * 1000)) (Finite (2 ^ 53 + 4)) = Finite (2 ^ 53 + 4)"
    by (simp add: math_Min_def f64_less_def)
  show "int_of_float64 (Finite (2 ^ 53 + 4)) = Some (2 ^ 53 + 4)"
    by (simp add: int_of_float64_def)
qed simp

lemma EB_maxint: "ExponentialBackoffMS 0 60 1 (2 ^ 63 - 1) = Returned None"
proof (rule ExponentialBackoffMS_steps)
  show "f64_mul (Pow2 (float64_of_int 60)) (Finite 1000) = Finite (2 ^ nat 60 * 1000)"
    by (rule base_term_exact) simp_all
  show "float64_of_int 0 = Finite (of_int 0)" by (rule float64_of_int_exact) simp_all
  show "f64_add (Finite (2 ^ nat 60 * 1000)) (Finite (of_int 0)) = Finite (2 ^ 60 * 1000)"
    using sum_60_0 by simp
  show "float64_of_int (2 ^ 63 - 1) = Finite (2 ^ 63)" by (rule float64_of_int_maxint)
  show "math_Min (Finite (2 ^ 60 * 1000)) (Finite (2 ^ 63)) = Finite (2 ^ 63)"
    by (simp add: math_Min_def f64_less_def)
  show "int_of_float64 (Finite (2 ^ 63)) = None"
    by (simp add: int_of_float64_def)
qed simp

lemma EB_sum_rounds_up:
  "ExponentialBackoffMS 127 50 128 (2 ^ 62) = Returned (Some (2 ^ 50 * 1000 + 128))"
proof (rule ExponentialBackoffMS_steps)
  show "f64_mul (Pow2 (float64_of_int 50)) (Finite 1000) = Finite (2 ^ nat 50 * 1000)"
    by (rule base_term_exact) simp_all
  show "float64_of_int 127 = Finite (of_int 127)" by (rule float64_of_int_exact) simp_all
  show "f64_add (Finite (2 ^ nat 50 * 1000)) (Finite (of_int 127)) = Finite (2 ^ 50 * 1000 + 128)"
    using sum_50_127 by simp
  have "float64_round (of_int 1 * 2 ^ 62) = Finite (of_int 1 * 2 ^ 62)"
    by (rule float64_round_exact) simp_all
  then show "float64_of_int (2 ^ 62) = Finite (2 ^ 62)"
    by (simp add: float64_of_int_def)
  show "math_Min (Finite (2 ^ 50 * 1000 + 128)) (Finite (2 ^ 62)) = Finite (2 ^ 50 * 1000 + 128)"
    by (simp add: math_Min_def f64_less_def)
  show "int_of_float64 (Finite (2 ^ 50 * 1000 + 128)) = Some (2 ^ 50 * 1000 + 128)"
    by (simp add: int_of_float64_def)
qed simp

section \<open>The loops, pass by pass\<close>

lemma DontPanic_failing:
  "failing f \<longleftrightarrow> fst (DontPanic fmtv opName f) \<noteq> None"
  by (cases f) (auto simp: DontPanic_def split: option.splits)

lemma DontPanic_events:
  "count_list (snd (DontPanic fmtv opName f)) Invoked = 1"
  "filter is_sleep (snd (DontPanic fmtv opName f)) = []"
  by (auto simp: DontPanic_def split: outcome.split option.split)

lemma DontPanic_not_failing:
  "\<not> failing f \<Longrightarrow> DontPanic fmtv opName f = (None, [Invoked])"
  by (cases f) (auto simp: DontPanic_def)

lemma DontPanic_failing_Some:
  "failing f \<Longrightarrow> \<exists>err evs. DontPanic fmtv opName f = (Some err, evs)"
  by (cases f) (auto simp: DontPanic_def split: option.split)

lemma WithRestart_loop_success:
  assumes "\<not> failing (task (world i))"
  shows "WithRestart_loop fmtv opName world i attempt tr = Some (tr @ [Invoked], Returned ())"
  by (subst WithRestart_loop.simps) (simp add: DontPanic_not_failing[OF assms])

lemma WithRestart_loop_fast:
  assumes "failing (task (world i))"
    and "elapsed (world i) < minFunctionRuntimeSecs * Second"
    and "Backoff (draw (world i)) attempt jitter maxBackoff = Returned slept"
  shows "WithRestart_loop fmtv opName world i attempt tr
           = WithRestart_loop fmtv opName world (Suc i) (attempt + 1)
               (tr @ snd (DontPanic fmtv opName (task (world i))) @ slept
                  @ [LogWarn (''Restarting service '' @ opName)])"
proof -
  from DontPanic_failing_Some[OF assms(1)] obtain err evs where
    dp: "DontPanic fmtv opName (task (world i)) = (Some err, evs)"
    by blast
  have evs: "snd (DontPanic fmtv opName (task (world i))) = evs" by (simp add: dp)
  show ?thesis
    unfolding evs by (subst WithRestart_loop.simps) (simp add: dp assms(2,3))
qed

lemma WithRestart_loop_slow:
  assumes "failing (task (world i))"
    and "minFunctionRuntimeSecs * Second \<le> elapsed (world i)"
  shows "WithRestart_loop fmtv opName world i attempt tr
           = WithRestart_loop fmtv opName world (Suc i) 0
               (tr @ snd (DontPanic fmtv opName (task (world i)))
                  @ [LogWarn (''Restarting service '' @ opName)])"
proof -
  from DontPanic_failing_Some[OF assms(1)] obtain err evs where
    dp: "DontPanic fmtv opName (task (world i)) = (Some err, evs)"
    by blast
  have evs: "snd (DontPanic fmtv opName (task (world i))) = evs" by (simp add: dp)
  have slow: "\<not> elapsed (world i) < minFunctionRuntimeSecs * Second"
    using assms(2) by simp
  show ?thesis
    unfolding evs by (subst WithRestart_loop.simps) (simp add: dp slow)
qed

lemma WithRestart_loop_only_on_success:
  fixes fmtv :: "'p \<Rightarrow> string" and world :: "nat \<Rightarrow> ('e, 'p) pass"
  assumes "WithRestart_loop fmtv opName world i attempt tr = Some res"
  shows "\<exists>n\<ge>i. \<not> failing (task (world n))"
proof (rule WithRestart_loop.raw_induct
    [where P = "\<lambda>fmtv opName world i attempt tr res. \<exists>n\<ge>i. \<not> failing (task (world n))",
      OF _ assms])
  fix loop :: "('p \<Rightarrow> string) \<Rightarrow> string \<Rightarrow> (nat \<Rightarrow> ('e, 'p) pass) \<Rightarrow> nat \<Rightarrow> int \<Rightarrow> event list
     \<Rightarrow> (event list \<times> unit result) option"
  fix fmtv :: "'p \<Rightarrow> string" and opName and world :: "nat \<Rightarrow> ('e, 'p) pass" and i attempt tr res
  assume IH: "\<And>fmtv opName world i attempt tr res.
      loop fmtv opName world i attempt tr = Some res \<Longrightarrow> \<exists>n\<ge>i. \<not> failing (task (world n))"
  assume body: "(case DontPanic fmtv opName (task (world i)) of
        (None, evs) \<Rightarrow> Some (tr @ evs, Returned ())
      | (Some err, evs) \<Rightarrow>
          if elapsed (world i) < minFunctionRuntimeSecs * Second then
            (case Backoff (draw (world i)) attempt jitter maxBackoff of
               Panicked msg \<Rightarrow> Some (tr @ evs, Panicked msg)
             | Returned slept \<Rightarrow>
                 loop fmtv opName world (Suc i) (attempt + 1)
                   (tr @ evs @ slept @ [LogWarn (''Restarting service '' @ opName)]))
          else
            loop fmtv opName world (Suc i) 0
              (tr @ evs @ [LogWarn (''Restarting service '' @ opName)])) = Some res"
  show "\<exists>n\<ge>i. \<not> failing (task (world n))"
  proof (cases "failing (task (world i))")
    case False
    then show ?thesis by blast
  next
    case True
    from DontPanic_failing_Some[OF True] obtain err evs where
      dp: "DontPanic fmtv opName (task (world i)) = (Some err, evs)"
      by blast
    from Backoff_returns obtain slept where
      bo: "Backoff (draw (world i)) attempt jitter maxBackoff = Returned slept"
      by blast
    have "\<exists>a t. loop fmtv opName world (Suc i) a t = Some res"
    proof (cases "elapsed (world i) < minFunctionRuntimeSecs * Second")
      case fast: True
      from body have "loop fmtv opName world (Suc i) (attempt + 1)
          (tr @ evs @ slept @ [LogWarn (''Restarting service '' @ opName)]) = Some res"
        unfolding dp bo by (simp only: prod.case option.case result.case fast if_True)
      then show ?thesis by (intro exI)
    next
      case slow: False
      from body have "loop fmtv opName world (Suc i) 0
          (tr @ evs @ [LogWarn (''Restarting service '' @ opName)]) = Some res"
        unfolding dp by (simp only: prod.case option.case slow if_False)
      then show ?thesis by (intro exI)
    qed
    then obtain a t where "loop fmtv opName world (Suc i) a t = Some res" by (elim exE)
    then have "\<exists>n\<ge>Suc i. \<not> failing (task (world n))" by (rule IH)
    then obtain n where "Suc i \<le> n" and "\<not> failing (task (world n))" by (elim exE conjE)
    then have "i \<le> n \<and> \<not> failing (task (world n))" by simp
    then show ?thesis by (rule exI)
  qed
qed

lemma WithRestart_never_returns:
  assumes "\<forall>n. failing (task (world n))"
  shows "WithRestart fmtv opName world = None"
proof (cases "WithRestart fmtv opName world")
  case None
  then show ?thesis .
next
  case (Some res)
  then have "\<exists>n\<ge>0. \<not> failing (task (world n))"
    unfolding WithRestart_def by (rule WithRestart_loop_only_on_success)
  with assms show ?thesis by blast
qed

lemma WithRestart_loop_counts:
  assumes "\<forall>k<n. failing (task (world (i + k)))" and "\<not> failing (task (world (i + n)))"
  shows "\<exists>tr'. WithRestart_loop fmtv opName world i attempt tr = Some (tr', Returned ())
            \<and> count_list tr' Invoked = count_list tr Invoked + n + 1"
  using assms
proof (induction n arbitrary: i attempt tr)
  case 0
  then show ?case by (simp add: WithRestart_loop_success)
next
  case (Suc n)
  have f: "failing (task (world i))" using Suc.prems(1) by force
  have rest: "\<forall>k<n. failing (task (world (Suc i + k)))" using Suc.prems(1) by force
  have last: "\<not> failing (task (world (Suc i + n)))" using Suc.prems(2) by simp
  from Backoff_returns obtain slept where
    bo: "Backoff (draw (world i)) attempt jitter maxBackoff = Returned slept"
    and c: "count_list slept Invoked = 0"
    by blast
  show ?case
  proof (cases "elapsed (world i) < minFunctionRuntimeSecs * Second")
    case True
    from Suc.IH[OF rest last] obtain tr' where
      "WithRestart_loop fmtv opName world (Suc i) (attempt + 1)
         (tr @ snd (DontPanic fmtv opName (task (world i))) @ slept
            @ [LogWarn (''Restarting service '' @ opName)]) = Some (tr', Returned ())"
      "count_list tr' Invoked = count_list (tr @ snd (DontPanic fmtv opName (task (world i))) @ slept
            @ [LogWarn (''Restarting service '' @ opName)]) Invoked + n + 1"
      by blast
    then show ?thesis
      by (simp add: WithRestart_loop_fast[where world = world and i = i, OF f True bo]
          DontPanic_events c)
  next
    case False
    then have slow: "minFunctionRuntimeSecs * Second \<le> elapsed (world i)" by simp
    from Suc.IH[OF rest last] obtain tr' where
      "WithRestart_loop fmtv opName world (Suc i) 0
         (tr @ snd (DontPanic fmtv opName (task (world i)))
            @ [LogWarn (''Restarting service '' @ opName)]) = Some (tr', Returned ())"
      "count_list tr' Invoked = count_list (tr @ snd (DontPanic fmtv opName (task (world i)))
            @ [LogWarn (''Restarting service '' @ opName)]) Invoked + n + 1"
      by blast
    then show ?thesis
      by (simp add: WithRestart_loop_slow[where world = world and i = i, OF f slow]
          DontPanic_events)
  qed
qed

lemma UntilSuccessful_loop_success:
  assumes "\<not> failing (task (world i))"
  shows "UntilSuccessful_loop fmtv opName world i attempt tr = Some (tr @ [Invoked], Returned ())"
  by (subst UntilSuccessful_loop.simps) (simp add: DontPanic_not_failing[OF assms])

lemma UntilSuccessful_loop_step:
  assumes "failing (task (world i))"
    and "Backoff (draw (world i)) attempt jitter maxBackoff = Returned slept"
  shows "UntilSuccessful_loop fmtv opName world i attempt tr
           = UntilSuccessful_loop fmtv opName world (Suc i) (attempt + 1)
               (tr @ snd (DontPanic fmtv opName (task (world i)))
                  @ [LogWarn (''Operation '' @ opName @ '' failed.  The operation will be retried.'')]
                  @ slept
                  @ [LogWarn (''Retrying operation '' @ opName)])"
proof -
  from DontPanic_failing_Some[OF assms(1)] obtain err evs where
    dp: "DontPanic fmtv opName (task (world i)) = (Some err, evs)"
    by blast
  have evs: "snd (DontPanic fmtv opName (task (world i))) = evs" by (simp add: dp)
  show ?thesis
    unfolding evs by (subst UntilSuccessful_loop.simps) (simp add: dp assms(2))
qed

lemma UntilSuccessful_loop_run:
  assumes "\<forall>k<n. failing (task (world (i + k)))
              \<and> 0 \<le> draw (world (i + k)) \<and> draw (world (i + k)) < jitter"
    and "\<not> failing (task (world (i + n)))"
    and "0 \<le> attempt"
  shows "UntilSuccessful_loop fmtv opName world i attempt tr
           = Some (tr @ concat (map (\<lambda>k.
                 snd (DontPanic fmtv opName (task (world (i + k))))
                   @ [LogWarn (''Operation '' @ opName @ '' failed.  The operation will be retried.''),
                      Slept (min (2 ^ nat (attempt + int k) * 1000 + draw (world (i + k))) 64000
                               * 1000000),
                      LogWarn (''Retrying operation '' @ opName)]) [0..<n])
                 @ [Invoked], Returned ())"
  using assms
proof (induction n arbitrary: i attempt tr)
  case 0
  then show ?case by (simp add: UntilSuccessful_loop_success)
next
  case (Suc n)
  have here: "failing (task (world i))" "0 \<le> draw (world i)" "draw (world i) < jitter"
    using Suc.prems(1) by force+
  have rest: "\<forall>k<n. failing (task (world (Suc i + k)))
              \<and> 0 \<le> draw (world (Suc i + k)) \<and> draw (world (Suc i + k)) < jitter"
    using Suc.prems(1) by force
  have last: "\<not> failing (task (world (Suc i + n)))" using Suc.prems(2) by simp
  have att: "0 \<le> attempt + 1" using Suc.prems(3) by simp
  have bo: "Backoff (draw (world i)) attempt jitter maxBackoff
              = Returned [Slept (min (2 ^ nat attempt * 1000 + draw (world i)) 64000 * 1000000)]"
    using Suc.prems(3) here(2,3) by (rule Backoff_supervised)
  have shift: "nat (attempt + 1 + int k) = nat (attempt + int (Suc k))" for k
    by simp
  show ?case
    unfolding UntilSuccessful_loop_step[where world = world and i = i, OF here(1) bo]
      Suc.IH[OF rest last att] map_upt_Suc shift
    by simp
qed

lemma WithRestart_returns_after_first_success:
  assumes "WithRestart fmtv opName world = Some (tr, r)"
  shows "r = Returned () \<and> (\<exists>n. \<not> failing (task (world n)) \<and> (\<forall>i<n. failing (task (world i)))
            \<and> count_list tr Invoked = n + 1)"
proof -
  from assms have "\<exists>n\<ge>0. \<not> failing (task (world n))"
    unfolding WithRestart_def by (rule WithRestart_loop_only_on_success)
  then have ex: "\<exists>n. \<not> failing (task (world n))" by blast
  define n where "n = (LEAST n. \<not> failing (task (world n)))"
  have n: "\<not> failing (task (world n))" unfolding n_def using ex by (rule LeastI_ex)
  have before: "\<forall>i<n. failing (task (world i))"
    unfolding n_def using not_less_Least by blast
  then have before': "\<forall>k<n. failing (task (world (0 + k)))" by simp
  have n': "\<not> failing (task (world (0 + n)))" using n by simp
  from WithRestart_loop_counts[where world = world and i = 0 and n = n, OF before' n']
  obtain tr' where "WithRestart_loop fmtv opName world 0 0 [] = Some (tr', Returned ())"
    "count_list tr' Invoked = count_list [] Invoked + n + 1"
    by blast
  with assms have "r = Returned ()" "count_list tr Invoked = n + 1"
    unfolding WithRestart_def by simp_all
  with n before show ?thesis by blast
qed

lemma backoff_at_0:
  assumes "0 \<le> d" "d < jitter"
  shows "ExponentialBackoffMS d 0 jitter maxBackoff = Returned (Some (1000 + d))"
    and "Backoff d 0 jitter maxBackoff = Returned [Slept ((1000 + d) * Millisecond)]"
proof -
  have "min (2 ^ nat 0 * 1000 + d) 64000 = 1000 + d" using assms by (simp add: jitter_def)
  then show "ExponentialBackoffMS d 0 jitter maxBackoff = Returned (Some (1000 + d))"
    using ExponentialBackoffMS_exact[of 0 d jitter maxBackoff] assms
    by (simp add: maxBackoff_def)
  from \<open>min (2 ^ nat 0 * 1000 + d) 64000 = 1000 + d\<close>
  show "Backoff d 0 jitter maxBackoff = Returned [Slept ((1000 + d) * Millisecond)]"
    using Backoff_supervised[of 0 d] assms by (simp add: Millisecond_def)
qed

lemma backoff_at_1:
  assumes "0 \<le> d" "d < jitter"
  shows "ExponentialBackoffMS d 1 jitter maxBackoff = Returned (Some (2000 + d))"
    and "Backoff d 1 jitter maxBackoff = Returned [Slept ((2000 + d) * Millisecond)]"
proof -
  have "min (2 ^ nat 1 * 1000 + d) 64000 = 2000 + d" using assms by (simp add: jitter_def)
  then show "ExponentialBackoffMS d 1 jitter maxBackoff = Returned (Some (2000 + d))"
    using ExponentialBackoffMS_exact[of 1 d jitter maxBackoff] assms
    by (simp add: maxBackoff_def)
  from \<open>min (2 ^ nat 1 * 1000 + d) 64000 = 2000 + d\<close>
  show "Backoff d 1 jitter maxBackoff = Returned [Slept ((2000 + d) * Millisecond)]"
    using Backoff_supervised[of 1 d] assms by (simp add: Millisecond_def)
qed

lemma under_a_second: "t < Second \<Longrightarrow> t < minFunctionRuntimeSecs * Second"
  by (simp add: Second_def minFunctionRuntimeSecs_def)

lemma is_sleep_concat_map:
  assumes "\<And>x. x \<in> set xs \<Longrightarrow> filter is_sleep (f x) = [g x]"
  shows "filter is_sleep (concat (map f xs)) = map g xs"
  using assms by (induction xs) simp_all

lemma count_concat_map_one:
  assumes "\<And>x. x \<in> set xs \<Longrightarrow> count_list (f x) a = 1"
  shows "count_list (concat (map f xs)) a = length xs"
  using assms by (induction xs) simp_all

text \<open>
  Runs of failures: \<open>m\<close> quick ones advance \<open>attempt\<close> by \<open>m\<close> and sleep after each, \<open>n\<close> long
  ones leave \<open>attempt\<close> at 0 and never sleep.
\<close>

lemma WithRestart_loop_fast_run:
  assumes "\<forall>k<m. failing (task (world (i + k)))
              \<and> elapsed (world (i + k)) < minFunctionRuntimeSecs * Second
              \<and> 0 \<le> draw (world (i + k)) \<and> draw (world (i + k)) < jitter"
    and "0 \<le> attempt"
  shows "WithRestart_loop fmtv opName world i attempt tr
           = WithRestart_loop fmtv opName world (i + m) (attempt + int m)
               (tr @ concat (map (\<lambda>k.
                  snd (DontPanic fmtv opName (task (world (i + k))))
                    @ [Slept (min (2 ^ nat (attempt + int k) * 1000 + draw (world (i + k))) 64000
                                * Millisecond),
                       LogWarn (''Restarting service '' @ opName)]) [0..<m]))"
  using assms(1)
proof (induction m)
  case 0
  show ?case by simp
next
  case (Suc m)
  have before: "\<forall>k<m. failing (task (world (i + k)))
              \<and> elapsed (world (i + k)) < minFunctionRuntimeSecs * Second
              \<and> 0 \<le> draw (world (i + k)) \<and> draw (world (i + k)) < jitter"
    using Suc.prems by simp
  have here: "failing (task (world (i + m)))"
    "elapsed (world (i + m)) < minFunctionRuntimeSecs * Second"
    "0 \<le> draw (world (i + m))" "draw (world (i + m)) < jitter"
    using Suc.prems by simp_all
  have att: "0 \<le> attempt + int m" using assms(2) by simp
  have bo: "Backoff (draw (world (i + m))) (attempt + int m) jitter maxBackoff
      = Returned [Slept (min (2 ^ nat (attempt + int m) * 1000 + draw (world (i + m))) 64000
                           * 1000000)]"
    using att here(3,4) by (rule Backoff_supervised)
  have e: "attempt + int m + 1 = attempt + int (Suc m)" "Suc (i + m) = i + Suc m"
    by simp_all
  show ?case
    unfolding Suc.IH[OF before]
      WithRestart_loop_fast[where world = world and i = "i + m", OF here(1,2) bo] e
    by (simp add: Millisecond_def)
qed

lemma WithRestart_loop_slow_run:
  assumes "\<forall>k<n. failing (task (world (i + k)))
              \<and> minFunctionRuntimeSecs * Second \<le> elapsed (world (i + k))"
  shows "WithRestart_loop fmtv opName world i attempt tr
           = WithRestart_loop fmtv opName world (i + n) (if n = 0 then attempt else 0)
               (tr @ concat (map (\<lambda>k.
                  snd (DontPanic fmtv opName (task (world (i + k))))
                    @ [LogWarn (''Restarting service '' @ opName)]) [0..<n]))"
  using assms
proof (induction n)
  case 0
  show ?case by simp
next
  case (Suc n)
  have before: "\<forall>k<n. failing (task (world (i + k)))
              \<and> minFunctionRuntimeSecs * Second \<le> elapsed (world (i + k))"
    using Suc.prems by simp
  have here: "failing (task (world (i + n)))"
    "minFunctionRuntimeSecs * Second \<le> elapsed (world (i + n))"
    using Suc.prems by simp_all
  have e: "Suc (i + n) = i + Suc n" by simp
  show ?case
    unfolding Suc.IH[OF before]
      WithRestart_loop_slow[where world = world and i = "i + n", OF here] e
    by simp
qed

lemma filter_is_sleep_fast_passes:
  "filter is_sleep (concat (map (\<lambda>k. snd (DontPanic fmtv opName (f k)) @ [Slept (g k), LogWarn w]) xs))
     = map (\<lambda>k. Slept (g k)) xs"
  by (rule is_sleep_concat_map) (simp add: DontPanic_events)

lemma filter_is_sleep_slow_passes:
  "filter is_sleep (concat (map (\<lambda>k. snd (DontPanic fmtv opName (f k)) @ [LogWarn w]) xs)) = []"
  by (induction xs) (simp_all add: DontPanic_events)

lemma count_Invoked_fast_passes:
  "count_list (concat (map (\<lambda>k. snd (DontPanic fmtv opName (f k)) @ [Slept (g k), LogWarn w]) xs))
     Invoked = length xs"
  by (rule count_concat_map_one) (simp add: DontPanic_events)

lemma count_Invoked_slow_passes:
  "count_list (concat (map (\<lambda>k. snd (DontPanic fmtv opName (f k)) @ [LogWarn w]) xs))
     Invoked = length xs"
  by (rule count_concat_map_one) (simp add: DontPanic_events)

lemma backoff_at:
  assumes "0 \<le> attempt" "0 \<le> d" "d < jitter"
  shows "ExponentialBackoffMS d attempt jitter maxBackoff
           = Returned (Some (min (2 ^ nat attempt * 1000 + d) 64000))"
  using ExponentialBackoffMS_exact[of attempt d jitter maxBackoff] assms
  by (simp add: maxBackoff_def)

lemma WithRestart_loop_slow_then_fast:
  assumes slow: "\<forall>k<n. failing (task (world (i + k)))
              \<and> minFunctionRuntimeSecs * Second \<le> elapsed (world (i + k))"
    and n: "0 < n"
    and fast: "\<forall>k<m. failing (task (world (i + n + k)))
              \<and> elapsed (world (i + n + k)) < minFunctionRuntimeSecs * Second
              \<and> 0 \<le> draw (world (i + n + k)) \<and> draw (world (i + n + k)) < jitter"
    and ok: "\<not> failing (task (world (i + n + m)))"
  shows "WithRestart_loop fmtv opName world i attempt tr
        = Some (tr
                 @ concat (map (\<lambda>k.
                     snd (DontPanic fmtv opName (task (world (i + k))))
                       @ [LogWarn (''Restarting service '' @ opName)]) [0..<n])
                 @ concat (map (\<lambda>k.
                     snd (DontPanic fmtv opName (task (world (i + n + k))))
                       @ [Slept (min (2 ^ k * 1000 + draw (world (i + n + k))) 64000 * Millisecond),
                          LogWarn (''Restarting service '' @ opName)]) [0..<m])
                 @ [Invoked],
                Returned ())"
proof -
  have "WithRestart_loop fmtv opName world i attempt tr
      = WithRestart_loop fmtv opName world (i + n) 0
         (tr @ concat (map (\<lambda>k.
                     snd (DontPanic fmtv opName (task (world (i + k))))
                       @ [LogWarn (''Restarting service '' @ opName)]) [0..<n]))"
    using WithRestart_loop_slow_run[where world = world and i = i and n = n and fmtv = fmtv
        and opName = opName and attempt = attempt and tr = tr, OF slow] n
    by simp
  also have "\<dots> = WithRestart_loop fmtv opName world (i + n + m) (0 + int m)
         ((tr @ concat (map (\<lambda>k.
                     snd (DontPanic fmtv opName (task (world (i + k))))
                       @ [LogWarn (''Restarting service '' @ opName)]) [0..<n]))
           @ concat (map (\<lambda>k.
                     snd (DontPanic fmtv opName (task (world (i + n + k))))
                       @ [Slept (min (2 ^ nat (0 + int k) * 1000 + draw (world (i + n + k))) 64000
                                  * Millisecond),
                          LogWarn (''Restarting service '' @ opName)]) [0..<m]))"
    by (rule WithRestart_loop_fast_run[where world = world and i = "i + n" and m = m
          and attempt = 0, OF fast order_refl])
  also have "\<dots> = Some (((tr @ concat (map (\<lambda>k.
                     snd (DontPanic fmtv opName (task (world (i + k))))
                       @ [LogWarn (''Restarting service '' @ opName)]) [0..<n]))
           @ concat (map (\<lambda>k.
                     snd (DontPanic fmtv opName (task (world (i + n + k))))
                       @ [Slept (min (2 ^ nat (0 + int k) * 1000 + draw (world (i + n + k))) 64000
                                  * Millisecond),
                          LogWarn (''Restarting service '' @ opName)]) [0..<m])) @ [Invoked],
            Returned ())"
    by (rule WithRestart_loop_success[where world = world and i = "i + n + m", OF ok])
  finally show ?thesis
    by simp
qed

section \<open>The fault isolator: C6, C1\<close>

text \<open>
  C6. When the task returns, \<open>DontPanic\<close> returns what the task returned: \<open>nil\<close> for
  \<open>nil\<close>, and the task's error value itself for an error. Nothing is logged.
\<close>

theorem DontPanic_returns_what_task_returned:
  "DontPanic fmtv opName (Return err) = (err, [Invoked])
   \<and> fst (DontPanic fmtv opName (Return None)) = None
   \<and> fst (DontPanic fmtv opName (Return (Some e))) = Some e"
  by (simp add: DontPanic_def)

text \<open>
  C1. A panic with \<open>nil\<close> is caught, but \<open>DontPanic\<close> then returns \<open>nil\<close>: no error, where
  C1 asks for one after every panic. A panic with a value \<open>p\<close> other than \<open>nil\<close> is caught
  and comes back as the error \<open>fmt.Errorf("%#v", p)\<close>, whose text is the \<open>%#v\<close> rendering of
  \<open>p\<close>; for the string \<open>boom\<close> that text is \<open>boom\<close> in double quotes.
\<close>

theorem DontPanic_nil_panic_reported_as_success:
  "fst (DontPanic fmtv opName (Panic None)) = None
   \<and> fst (DontPanic fmtv opName (Panic (Some p))) = Some (Errorf (fmtv p))
   \<and> fst (DontPanic quote_plain opName (Panic (Some ''boom'')))
       = Some (Errorf ([CHR 0x22] @ ''boom'' @ [CHR 0x22]))"
  by (simp add: DontPanic_def quote_plain_def)

section \<open>The backoff calculator: C2, C7, C8, C9\<close>

text \<open>
  C2, amended. For \<open>attempts \<ge> 0\<close>, \<open>jitterMS > 0\<close> and \<open>0 < maxMS \<le> 2^53\<close>, when
  \<open>rand.Intn(jitterMS)\<close> yields \<open>d\<close> (so \<open>0 \<le> d < jitterMS\<close>), \<open>ExponentialBackoffMS\<close>
  returns \<open>min (2^attempts * 1000 + r) maxMS\<close> for an \<open>r\<close> with \<open>0 \<le> r < jitterMS\<close>, namely
  the number drawn. That the draw is uniform is the library's affair and is not part of
  the model.
\<close>

theorem ExponentialBackoffMS_formula:
  assumes "0 \<le> attempts" and "0 < jitterMS" and "0 < maxMS" and "maxMS \<le> 2 ^ 53"
    and "0 \<le> d" and "d < jitterMS"
  shows "\<exists>r. 0 \<le> r \<and> r < jitterMS \<and> r = d
           \<and> ExponentialBackoffMS d attempts jitterMS maxMS
               = Returned (Some (min (2 ^ nat attempts * 1000 + r) maxMS))"
  using assms ExponentialBackoffMS_exact[of attempts d jitterMS maxMS] by simp

text \<open>The hypotheses of C2 hold at attempts 5, jitter 100, cap 64000 and draw 37.\<close>

theorem ExponentialBackoffMS_formula_witness:
  "(0::int) \<le> 5 \<and> (0::int) < 100 \<and> (0::int) < 64000 \<and> (64000::int) \<le> 2 ^ 53
     \<and> (0::int) \<le> 37 \<and> (37::int) < 100
     \<and> ExponentialBackoffMS 37 5 100 64000 = Returned (Some 32037)"
  using ExponentialBackoffMS_formula[of 5 100 64000 37] by simp

text \<open>
  C2 as stated fails in two ways. With \<open>jitterMS = 0\<close> there is no result at all:
  \<open>rand.Intn(0)\<close> panics. And above \<open>2^53\<close> the float64 sum is rounded: at attempts 50,
  jitter 128, cap \<open>2^62\<close> and draw 127 the sum \<open>2^50 * 1000 + 127\<close> rounds up to
  \<open>2^50 * 1000 + 128\<close>, which no \<open>r < 128\<close> explains.
\<close>

theorem ExponentialBackoffMS_formula_counterexample:
  "ExponentialBackoffMS 0 3 0 64000 = Panicked ''invalid argument to Intn''
   \<and> \<not> (\<exists>r. 0 \<le> r \<and> r < 128
            \<and> ExponentialBackoffMS 127 50 128 (2 ^ 62)
                = Returned (Some (min (2 ^ nat 50 * 1000 + r) (2 ^ 62))))"
proof
  show "ExponentialBackoffMS 0 3 0 64000 = Panicked ''invalid argument to Intn''"
    by (simp add: ExponentialBackoffMS_def Intn_def)
  show "\<not> (\<exists>r. 0 \<le> r \<and> r < 128
            \<and> ExponentialBackoffMS 127 50 128 (2 ^ 62)
                = Returned (Some (min (2 ^ nat 50 * 1000 + r) (2 ^ 62))))"
    unfolding EB_sum_rounds_up by auto
qed

text \<open>
  C7, amended. For \<open>attempts \<ge> 0\<close>, \<open>jitterMS > 0\<close> and \<open>0 < maxMS \<le> 2^53\<close>,
  \<open>ExponentialBackoffMS\<close> returns without a panic, and its result lies between
  \<open>min (2^attempts * 1000) maxMS\<close> and \<open>maxMS\<close>; in particular it is not negative.
\<close>

theorem ExponentialBackoffMS_bounds:
  assumes "0 \<le> attempts" and "0 < jitterMS" and "0 < maxMS" and "maxMS \<le> 2 ^ 53"
    and "0 \<le> d" and "d < jitterMS"
  shows "\<exists>v. ExponentialBackoffMS d attempts jitterMS maxMS = Returned (Some v)
           \<and> min (2 ^ nat attempts * 1000) maxMS \<le> v \<and> v \<le> maxMS \<and> 0 \<le> v"
  using assms ExponentialBackoffMS_exact[of attempts d jitterMS maxMS] by simp

text \<open>The hypotheses of C7 hold at attempts 7, jitter 100, cap 64000 and draw 99.\<close>

theorem ExponentialBackoffMS_bounds_witness:
  "(0::int) \<le> 7 \<and> (0::int) < 100 \<and> (0::int) < 64000 \<and> (64000::int) \<le> 2 ^ 53
     \<and> (0::int) \<le> 99 \<and> (99::int) < 100
     \<and> (\<exists>v. ExponentialBackoffMS 99 7 100 64000 = Returned (Some v)
           \<and> min (2 ^ nat 7 * 1000) 64000 \<le> v \<and> v \<le> 64000 \<and> 0 \<le> v)"
  using ExponentialBackoffMS_bounds[of 7 100 64000 99] by simp

text \<open>
  C7 as stated fails in two ways. With \<open>jitterMS = 0\<close> the call panics. And a cap above
  \<open>2^53\<close> is rounded when it is converted to float64: the cap \<open>2^53 + 3\<close> becomes
  \<open>2^53 + 4\<close>, and that is the result at attempts 60, above the cap.
\<close>

theorem ExponentialBackoffMS_bounds_counterexample:
  "ExponentialBackoffMS 0 0 0 1000 = Panicked ''invalid argument to Intn''
   \<and> ExponentialBackoffMS 0 60 1 (2 ^ 53 + 3) = Returned (Some (2 ^ 53 + 4))"
  using EB_cap_rounds_up by (simp add: ExponentialBackoffMS_def Intn_def)

text \<open>
  C8, amended. The base term \<open>math.Pow(2, float64(attempts)) * 1000\<close> is strictly
  increasing in \<open>attempts\<close> as long as the smaller of the two is at most 1014; from
  1015 on it is \<open>+Inf\<close> for every \<open>attempts\<close>. With \<open>jitterMS > 0\<close> and
  \<open>0 < maxMS \<le> 2^53\<close>: once \<open>2^n * 1000\<close> has reached \<open>maxMS\<close>, the result is \<open>maxMS\<close> at
  \<open>n\<close> and at every larger \<open>attempts\<close>, whatever is drawn.
\<close>

theorem base_term_increasing_and_capped:
  "(0 \<le> a \<and> a < b \<and> a \<le> 1014 \<longrightarrow>
      f64_less (f64_mul (Pow2 (float64_of_int a)) (Finite 1000))
               (f64_mul (Pow2 (float64_of_int b)) (Finite 1000)))
   \<and> (1015 \<le> a' \<longrightarrow> f64_mul (Pow2 (float64_of_int a')) (Finite 1000) = PosInf)
   \<and> (0 \<le> n \<and> maxMS \<le> 2 ^ nat n * 1000 \<and> n \<le> n' \<and> 0 < maxMS \<and> maxMS \<le> 2 ^ 53
        \<and> 0 \<le> d \<and> d < jitterMS \<longrightarrow>
      ExponentialBackoffMS d n' jitterMS maxMS = Returned (Some maxMS))"
proof (intro conjI impI)
  assume h: "0 \<le> a \<and> a < b \<and> a \<le> 1014"
  then have A: "f64_mul (Pow2 (float64_of_int a)) (Finite 1000) = Finite (2 ^ nat a * 1000)"
    by (intro base_term_exact) auto
  show "f64_less (f64_mul (Pow2 (float64_of_int a)) (Finite 1000))
               (f64_mul (Pow2 (float64_of_int b)) (Finite 1000))"
  proof (cases "b \<le> 1014")
    case True
    then have B: "f64_mul (Pow2 (float64_of_int b)) (Finite 1000) = Finite (2 ^ nat b * 1000)"
      using h by (intro base_term_exact) auto
    have "nat a < nat b" using h by linarith
    then have "(2::rat) ^ nat a < 2 ^ nat b" by (intro power_strict_increasing) auto
    then show ?thesis by (simp add: A B f64_less_def)
  next
    case False
    then have "f64_mul (Pow2 (float64_of_int b)) (Finite 1000) = PosInf"
      by (intro base_term_overflow) auto
    then show ?thesis by (simp add: A f64_less_def)
  qed
next
  assume "1015 \<le> a'"
  then show "f64_mul (Pow2 (float64_of_int a')) (Finite 1000) = PosInf"
    by (rule base_term_overflow)
next
  assume h: "0 \<le> n \<and> maxMS \<le> 2 ^ nat n * 1000 \<and> n \<le> n' \<and> 0 < maxMS \<and> maxMS \<le> 2 ^ 53
        \<and> 0 \<le> d \<and> d < jitterMS"
  then have "nat n \<le> nat n'" by linarith
  then have "(2::int) ^ nat n \<le> 2 ^ nat n'" by (intro power_increasing) auto
  then have "(2::int) ^ nat n * 1000 \<le> 2 ^ nat n' * 1000" by simp
  with h have "maxMS \<le> 2 ^ nat n' * 1000 + d" by linarith
  moreover have "ExponentialBackoffMS d n' jitterMS maxMS
      = Returned (Some (min (2 ^ nat n' * 1000 + d) maxMS))"
    using h by (intro ExponentialBackoffMS_exact) auto
  ultimately show "ExponentialBackoffMS d n' jitterMS maxMS = Returned (Some maxMS)"
    by simp
qed

text \<open>
  The hypotheses of C8 hold at attempts 3 and 4, at attempts 1015, and at the cap 64000,
  reached at attempts 6 and kept at attempts 9.
\<close>

theorem base_term_increasing_and_capped_witness:
  "f64_less (f64_mul (Pow2 (float64_of_int 3)) (Finite 1000))
            (f64_mul (Pow2 (float64_of_int 4)) (Finite 1000))
   \<and> f64_mul (Pow2 (float64_of_int 1015)) (Finite 1000) = PosInf
   \<and> ExponentialBackoffMS 42 9 100 64000 = Returned (Some 64000)"
  using base_term_increasing_and_capped[of 3 4 1015 6 64000 9 42 100] by simp

text \<open>
  C8 as stated fails in three ways. The base terms at attempts 1015 and 1016 are both
  \<open>+Inf\<close>, so the second is not greater. With \<open>jitterMS = 0\<close> a capped call panics instead of
  returning the cap. And the cap \<open>2^53 + 1\<close> is rounded to \<open>2^53\<close> on its way to float64,
  so the capped result at attempts 60 is \<open>2^53\<close>, not the cap.
\<close>

theorem base_term_increasing_and_capped_counterexample:
  "\<not> f64_less (f64_mul (Pow2 (float64_of_int 1015)) (Finite 1000))
              (f64_mul (Pow2 (float64_of_int 1016)) (Finite 1000))
   \<and> ExponentialBackoffMS 0 10 0 64000 = Panicked ''invalid argument to Intn''
   \<and> ExponentialBackoffMS 0 60 1 (2 ^ 53 + 1) = Returned (Some (2 ^ 53))"
proof -
  have "f64_mul (Pow2 (float64_of_int 1015)) (Finite 1000) = PosInf"
    by (rule base_term_overflow) simp
  moreover have "f64_mul (Pow2 (float64_of_int 1016)) (Finite 1000) = PosInf"
    by (rule base_term_overflow) simp
  ultimately show ?thesis
    using EB_cap_rounds_down by (simp add: f64_less_def ExponentialBackoffMS_def Intn_def)
qed

text \<open>
  C9. For every \<open>attempts\<close> and every draw, \<open>GetNextBackOffMilliseconds\<close> is
  \<open>ExponentialBackoffMS\<close> with \<open>jitterMS = 5000\<close> and \<open>maxMS = 64000\<close>: the same draw gives the
  same result, so the two have the same distribution. For \<open>attempts \<ge> 0\<close> that result is
  \<open>min (2^attempts * 1000 + d) 64000\<close> with \<open>d\<close> drawn from \<open>[0, 5000)\<close>.
\<close>

theorem GetNextBackOffMilliseconds_fixes_parameters:
  "GetNextBackOffMilliseconds d attempts = ExponentialBackoffMS d attempts 5000 64000
   \<and> (0 \<le> attempts \<and> 0 \<le> d \<and> d < 5000 \<longrightarrow>
        GetNextBackOffMilliseconds d attempts
          = Returned (Some (min (2 ^ nat attempts * 1000 + d) 64000)))"
  using ExponentialBackoffMS_exact[of attempts d 5000 64000]
  by (simp add: GetNextBackOffMilliseconds_def)

text \<open>C9 at the draw 4999, below the cap (attempts 3) and at the cap (attempts 6).\<close>

theorem GetNextBackOffMilliseconds_fixes_parameters_witness:
  "GetNextBackOffMilliseconds 4999 3 = ExponentialBackoffMS 4999 3 5000 64000
   \<and> GetNextBackOffMilliseconds 4999 3 = Returned (Some 12999)
   \<and> GetNextBackOffMilliseconds 4999 6 = Returned (Some 64000)"
  using GetNextBackOffMilliseconds_fixes_parameters[of 4999 3]
    GetNextBackOffMilliseconds_fixes_parameters[of 4999 6]
  by (simp add: GetNextBackOffMilliseconds_def)

section \<open>The supervisors: C3, C4, C5, C10\<close>

text \<open>
  C3. \<open>WithRestart\<close> returns only after an invocation that succeeded, the first one, and
  it has then invoked the task once more than it failed. After a failed invocation whose
  elapsed time is below 60 seconds it sleeps for \<open>ExponentialBackoffMS(attempt, 100, 64000)\<close>
  milliseconds and goes on with \<open>attempt + 1\<close>. Hence, when the task fails twice, each time
  in under a second, and then succeeds, the task is invoked exactly 3 times and the run
  sleeps exactly twice, between the invocations: for the backoff at attempts 0 and then at
  attempts 1. An invocation fails when \<open>DontPanic\<close> reports an error for it.

  And it does return. From any pass \<open>i\<close>, value of \<open>attempt\<close> and events so far, when the task
  fails \<open>n\<close> times and then succeeds, the loop returns and has invoked the task \<open>n + 1\<close>
  times more; so does \<open>WithRestart\<close> itself. When each of \<open>m\<close> failures took less than 60
  seconds, the run is known event by event: for the \<open>k\<close>-th of them the invocation, the sleep
  for the backoff at attempts \<open>attempt + k\<close>, and the warning, and at last the invocation
  that succeeded. For \<open>WithRestart\<close> after \<open>N\<close> such failures that is \<open>N + 1\<close> invocations and
  \<open>N\<close> sleeps, for the backoffs at attempts \<open>0, ..., N - 1\<close>.
\<close>

theorem WithRestart_backs_off_after_fast_failures:
  "(WithRestart fmtv opName world = Some (tr, r) \<longrightarrow>
      r = Returned ()
      \<and> (\<exists>n. \<not> failing (task (world n)) \<and> (\<forall>k<n. failing (task (world k)))
             \<and> count_list tr Invoked = n + 1))
   \<and> (failing (task (world i)) \<and> elapsed (world i) < minFunctionRuntimeSecs * Second
        \<and> 0 \<le> attempt \<and> 0 \<le> draw (world i) \<and> draw (world i) < jitter \<longrightarrow>
      ExponentialBackoffMS (draw (world i)) attempt jitter maxBackoff
        = Returned (Some (min (2 ^ nat attempt * 1000 + draw (world i)) 64000))
      \<and> WithRestart_loop fmtv opName world i attempt tr0
          = WithRestart_loop fmtv opName world (Suc i) (attempt + 1)
              (tr0 @ snd (DontPanic fmtv opName (task (world i)))
                 @ [Slept (min (2 ^ nat attempt * 1000 + draw (world i)) 64000 * Millisecond),
                    LogWarn (''Restarting service '' @ opName)]))
   \<and> (failing (task (world 0)) \<and> failing (task (world 1)) \<and> \<not> failing (task (world 2))
        \<and> elapsed (world 0) < Second \<and> elapsed (world 1) < Second
        \<and> 0 \<le> draw (world 0) \<and> draw (world 0) < jitter
        \<and> 0 \<le> draw (world 1) \<and> draw (world 1) < jitter \<longrightarrow>
      (\<exists>trace. WithRestart fmtv opName world = Some (trace, Returned ())
         \<and> trace = snd (DontPanic fmtv opName (task (world 0)))
                 @ [Slept ((1000 + draw (world 0)) * Millisecond),
                    LogWarn (''Restarting service '' @ opName)]
                 @ snd (DontPanic fmtv opName (task (world 1)))
                 @ [Slept ((2000 + draw (world 1)) * Millisecond),
                    LogWarn (''Restarting service '' @ opName)]
                 @ [Invoked]
         \<and> count_list trace Invoked = 3
         \<and> filter is_sleep trace
             = [Slept ((1000 + draw (world 0)) * Millisecond),
                Slept ((2000 + draw (world 1)) * Millisecond)])
      \<and> ExponentialBackoffMS (draw (world 0)) 0 jitter maxBackoff
          = Returned (Some (1000 + draw (world 0)))
      \<and> ExponentialBackoffMS (draw (world 1)) 1 jitter maxBackoff
          = Returned (Some (2000 + draw (world 1))))
   \<and> ((\<forall>k<n. failing (task (world (i + k)))) \<and> \<not> failing (task (world (i + n))) \<longrightarrow>
      (\<exists>trace. WithRestart_loop fmtv opName world i attempt tr0 = Some (trace, Returned ())
         \<and> count_list trace Invoked = count_list tr0 Invoked + n + 1))
   \<and> ((\<forall>k<n. failing (task (world k))) \<and> \<not> failing (task (world n)) \<longrightarrow>
      (\<exists>trace. WithRestart fmtv opName world = Some (trace, Returned ())
         \<and> count_list trace Invoked = n + 1))
   \<and> ((\<forall>k<m. failing (task (world (i + k)))
              \<and> elapsed (world (i + k)) < minFunctionRuntimeSecs * Second
              \<and> 0 \<le> draw (world (i + k)) \<and> draw (world (i + k)) < jitter)
        \<and> \<not> failing (task (world (i + m))) \<and> 0 \<le> attempt \<longrightarrow>
      WithRestart_loop fmtv opName world i attempt tr0
        = Some (tr0 @ concat (map (\<lambda>k.
                   snd (DontPanic fmtv opName (task (world (i + k))))
                     @ [Slept (min (2 ^ nat (attempt + int k) * 1000 + draw (world (i + k))) 64000
                                 * Millisecond),
                        LogWarn (''Restarting service '' @ opName)]) [0..<m])
                 @ [Invoked],
                Returned ())
      \<and> (\<forall>k<m. ExponentialBackoffMS (draw (world (i + k))) (attempt + int k) jitter maxBackoff
                    = Returned (Some (min (2 ^ nat (attempt + int k) * 1000 + draw (world (i + k)))
                                        64000))))
   \<and> ((\<forall>k<N. failing (task (world k))
              \<and> elapsed (world k) < minFunctionRuntimeSecs * Second
              \<and> 0 \<le> draw (world k) \<and> draw (world k) < jitter)
        \<and> \<not> failing (task (world N)) \<longrightarrow>
      (\<exists>trace. WithRestart fmtv opName world = Some (trace, Returned ())
         \<and> trace = concat (map (\<lambda>k.
                   snd (DontPanic fmtv opName (task (world k)))
                     @ [Slept (min (2 ^ k * 1000 + draw (world k)) 64000 * Millisecond),
                        LogWarn (''Restarting service '' @ opName)]) [0..<N])
                 @ [Invoked]
         \<and> count_list trace Invoked = N + 1
         \<and> filter is_sleep trace
             = map (\<lambda>k. Slept (min (2 ^ k * 1000 + draw (world k)) 64000 * Millisecond)) [0..<N])
      \<and> (\<forall>k<N. ExponentialBackoffMS (draw (world k)) (int k) jitter maxBackoff
                    = Returned (Some (min (2 ^ k * 1000 + draw (world k)) 64000))))"
proof (intro conjI impI)
  assume "WithRestart fmtv opName world = Some (tr, r)"
  from WithRestart_returns_after_first_success[OF this]
  show "r = Returned ()"
    and "\<exists>n. \<not> failing (task (world n)) \<and> (\<forall>k<n. failing (task (world k)))
             \<and> count_list tr Invoked = n + 1"
    by blast+
next
  assume h: "failing (task (world i)) \<and> elapsed (world i) < minFunctionRuntimeSecs * Second
        \<and> 0 \<le> attempt \<and> 0 \<le> draw (world i) \<and> draw (world i) < jitter"
  then show "ExponentialBackoffMS (draw (world i)) attempt jitter maxBackoff
        = Returned (Some (min (2 ^ nat attempt * 1000 + draw (world i)) 64000))"
    using ExponentialBackoffMS_exact[of attempt "draw (world i)" jitter maxBackoff]
    by (simp add: maxBackoff_def)
  from h have "Backoff (draw (world i)) attempt jitter maxBackoff
      = Returned [Slept (min (2 ^ nat attempt * 1000 + draw (world i)) 64000 * Millisecond)]"
    using Backoff_supervised[of attempt "draw (world i)"] by (simp add: Millisecond_def)
  with h show "WithRestart_loop fmtv opName world i attempt tr0
          = WithRestart_loop fmtv opName world (Suc i) (attempt + 1)
              (tr0 @ snd (DontPanic fmtv opName (task (world i)))
                 @ [Slept (min (2 ^ nat attempt * 1000 + draw (world i)) 64000 * Millisecond),
                    LogWarn (''Restarting service '' @ opName)])"
    using WithRestart_loop_fast[where world = world and i = i and attempt = attempt
        and fmtv = fmtv and opName = opName and tr = tr0]
    by simp
next
  assume h: "failing (task (world 0)) \<and> failing (task (world 1)) \<and> \<not> failing (task (world 2))
        \<and> elapsed (world 0) < Second \<and> elapsed (world 1) < Second
        \<and> 0 \<le> draw (world 0) \<and> draw (world 0) < jitter
        \<and> 0 \<le> draw (world 1) \<and> draw (world 1) < jitter"
  from h show "ExponentialBackoffMS (draw (world 0)) 0 jitter maxBackoff
          = Returned (Some (1000 + draw (world 0)))"
    by (intro backoff_at_0) auto
  from h show "ExponentialBackoffMS (draw (world 1)) 1 jitter maxBackoff
          = Returned (Some (2000 + draw (world 1)))"
    by (intro backoff_at_1) auto
  have b0: "Backoff (draw (world 0)) 0 jitter maxBackoff
              = Returned [Slept ((1000 + draw (world 0)) * Millisecond)]"
    using h by (intro backoff_at_0) auto
  have b1: "Backoff (draw (world 1)) (0 + 1) jitter maxBackoff
              = Returned [Slept ((2000 + draw (world 1)) * Millisecond)]"
    using h backoff_at_1(2)[of "draw (world 1)"] by simp
  have f0: "failing (task (world 0))" and f1: "failing (task (world (Suc 0)))"
    and s2: "\<not> failing (task (world (Suc (Suc 0))))"
    using h by (simp_all add: numeral_2_eq_2)
  have e0: "elapsed (world 0) < minFunctionRuntimeSecs * Second"
    and e1: "elapsed (world (Suc 0)) < minFunctionRuntimeSecs * Second"
    using h by (simp_all add: under_a_second)
  have b1': "Backoff (draw (world (Suc 0))) (0 + 1) jitter maxBackoff
              = Returned [Slept ((2000 + draw (world (Suc 0))) * Millisecond)]"
    using b1 by simp
  have run: "WithRestart fmtv opName world
      = Some (snd (DontPanic fmtv opName (task (world 0)))
                 @ [Slept ((1000 + draw (world 0)) * Millisecond),
                    LogWarn (''Restarting service '' @ opName)]
                 @ snd (DontPanic fmtv opName (task (world 1)))
                 @ [Slept ((2000 + draw (world 1)) * Millisecond),
                    LogWarn (''Restarting service '' @ opName)]
                 @ [Invoked], Returned ())"
    unfolding WithRestart_def
      WithRestart_loop_fast[where world = world and i = 0, OF f0 e0 b0]
      WithRestart_loop_fast[where world = world and i = "Suc 0", OF f1 e1 b1']
      WithRestart_loop_success[where world = world and i = "Suc (Suc 0)", OF s2]
    by simp
  show "\<exists>trace. WithRestart fmtv opName world = Some (trace, Returned ())
         \<and> trace = snd (DontPanic fmtv opName (task (world 0)))
                 @ [Slept ((1000 + draw (world 0)) * Millisecond),
                    LogWarn (''Restarting service '' @ opName)]
                 @ snd (DontPanic fmtv opName (task (world 1)))
                 @ [Slept ((2000 + draw (world 1)) * Millisecond),
                    LogWarn (''Restarting service '' @ opName)]
                 @ [Invoked]
         \<and> count_list trace Invoked = 3
         \<and> filter is_sleep trace
             = [Slept ((1000 + draw (world 0)) * Millisecond),
                Slept ((2000 + draw (world 1)) * Millisecond)]"
    unfolding run by (simp add: DontPanic_events)
next
  assume h: "(\<forall>k<n. failing (task (world (i + k)))) \<and> \<not> failing (task (world (i + n)))"
  then show "\<exists>trace. WithRestart_loop fmtv opName world i attempt tr0 = Some (trace, Returned ())
         \<and> count_list trace Invoked = count_list tr0 Invoked + n + 1"
    using WithRestart_loop_counts[where world = world and i = i and n = n and fmtv = fmtv
        and opName = opName and attempt = attempt and tr = tr0]
    by blast
next
  assume h: "(\<forall>k<n. failing (task (world k))) \<and> \<not> failing (task (world n))"
  then have "\<forall>k<n. failing (task (world (0 + k)))" "\<not> failing (task (world (0 + n)))"
    by simp_all
  from WithRestart_loop_counts[where world = world and i = 0 and n = n and fmtv = fmtv
        and opName = opName and attempt = 0 and tr = "[]", OF this]
  show "\<exists>trace. WithRestart fmtv opName world = Some (trace, Returned ())
         \<and> count_list trace Invoked = n + 1"
    unfolding WithRestart_def by simp
next
  assume h: "(\<forall>k<m. failing (task (world (i + k)))
              \<and> elapsed (world (i + k)) < minFunctionRuntimeSecs * Second
              \<and> 0 \<le> draw (world (i + k)) \<and> draw (world (i + k)) < jitter)
        \<and> \<not> failing (task (world (i + m))) \<and> 0 \<le> attempt"
  then have fast: "\<forall>k<m. failing (task (world (i + k)))
              \<and> elapsed (world (i + k)) < minFunctionRuntimeSecs * Second
              \<and> 0 \<le> draw (world (i + k)) \<and> draw (world (i + k)) < jitter"
    and ok: "\<not> failing (task (world (i + m)))" and att: "0 \<le> attempt"
    by simp_all
  show "WithRestart_loop fmtv opName world i attempt tr0
        = Some (tr0 @ concat (map (\<lambda>k.
                   snd (DontPanic fmtv opName (task (world (i + k))))
                     @ [Slept (min (2 ^ nat (attempt + int k) * 1000 + draw (world (i + k))) 64000
                                 * Millisecond),
                        LogWarn (''Restarting service '' @ opName)]) [0..<m])
                 @ [Invoked],
                Returned ())"
    unfolding WithRestart_loop_fast_run[where world = world and i = i and m = m, OF fast att]
      WithRestart_loop_success[where world = world and i = "i + m", OF ok]
    by simp
  show "\<forall>k<m. ExponentialBackoffMS (draw (world (i + k))) (attempt + int k) jitter maxBackoff
                    = Returned (Some (min (2 ^ nat (attempt + int k) * 1000 + draw (world (i + k)))
                                        64000))"
    using fast att by (intro allI impI backoff_at) simp_all
next
  assume h: "(\<forall>k<N. failing (task (world k))
              \<and> elapsed (world k) < minFunctionRuntimeSecs * Second
              \<and> 0 \<le> draw (world k) \<and> draw (world k) < jitter)
        \<and> \<not> failing (task (world N))"
  then have fast: "\<forall>k<N. failing (task (world (0 + k)))
              \<and> elapsed (world (0 + k)) < minFunctionRuntimeSecs * Second
              \<and> 0 \<le> draw (world (0 + k)) \<and> draw (world (0 + k)) < jitter"
    and ok: "\<not> failing (task (world (0 + N)))"
    by simp_all
  have run: "WithRestart fmtv opName world
      = Some (concat (map (\<lambda>k.
                   snd (DontPanic fmtv opName (task (world k)))
                     @ [Slept (min (2 ^ k * 1000 + draw (world k)) 64000 * Millisecond),
                        LogWarn (''Restarting service '' @ opName)]) [0..<N])
                 @ [Invoked], Returned ())"
    unfolding WithRestart_def
      WithRestart_loop_fast_run[where world = world and i = 0 and m = N and attempt = 0,
        OF fast order_refl]
      WithRestart_loop_success[where world = world and i = "0 + N", OF ok]
    by simp
  show "\<exists>trace. WithRestart fmtv opName world = Some (trace, Returned ())
         \<and> trace = concat (map (\<lambda>k.
                   snd (DontPanic fmtv opName (task (world k)))
                     @ [Slept (min (2 ^ k * 1000 + draw (world k)) 64000 * Millisecond),
                        LogWarn (''Restarting service '' @ opName)]) [0..<N])
                 @ [Invoked]
         \<and> count_list trace Invoked = N + 1
         \<and> filter is_sleep trace
             = map (\<lambda>k. Slept (min (2 ^ k * 1000 + draw (world k)) 64000 * Millisecond)) [0..<N]"
    unfolding run
    by (simp add: filter_is_sleep_fast_passes count_Invoked_fast_passes)
  show "\<forall>k<N. ExponentialBackoffMS (draw (world k)) (int k) jitter maxBackoff
                    = Returned (Some (min (2 ^ k * 1000 + draw (world k)) 64000))"
  proof (intro allI impI)
    fix k assume "k < N"
    then have "0 \<le> draw (world k)" "draw (world k) < jitter" using h by simp_all
    with backoff_at[of "int k" "draw (world k)"]
    show "ExponentialBackoffMS (draw (world k)) (int k) jitter maxBackoff
                    = Returned (Some (min (2 ^ k * 1000 + draw (world k)) 64000))"
      by simp
  qed
qed

text \<open>
  C3 in the world \<open>fails_twice\<close> with passes of 250 ms and draws of 42, and after seven
  quick failures, where the last sleep is the cap of 64 s.
\<close>

theorem WithRestart_backs_off_after_fast_failures_witness:
  "failing (task (fails_twice (250 * Millisecond) 0))
   \<and> failing (task (fails_twice (250 * Millisecond) 1))
   \<and> \<not> failing (task (fails_twice (250 * Millisecond) 2))
   \<and> elapsed (fails_twice (250 * Millisecond) 0) < Second
   \<and> elapsed (fails_twice (250 * Millisecond) 1) < Second
   \<and> 0 \<le> draw (fails_twice (250 * Millisecond) 0)
   \<and> draw (fails_twice (250 * Millisecond) 0) < jitter
   \<and> 0 \<le> draw (fails_twice (250 * Millisecond) 1)
   \<and> draw (fails_twice (250 * Millisecond) 1) < jitter
   \<and> WithRestart quote_plain ''svc'' (fails_twice (250 * Millisecond))
       = Some ([Invoked,
                Slept 1042000000, LogWarn ''Restarting service svc'',
                Invoked, LogError (''PANIC: OPNAME=svc ERR='' @ quote_plain ''boom''), PrintStack,
                Slept 2042000000, LogWarn ''Restarting service svc'',
                Invoked],
               Returned ())
   \<and> ExponentialBackoffMS 42 0 jitter maxBackoff = Returned (Some 1042)
   \<and> ExponentialBackoffMS 42 1 jitter maxBackoff = Returned (Some 2042)
   \<and> (\<exists>n. \<not> failing (task (fails_twice (250 * Millisecond) n))
         \<and> (\<forall>k<n. failing (task (fails_twice (250 * Millisecond) k)))
         \<and> count_list
               [Invoked,
                Slept 1042000000, LogWarn ''Restarting service svc'',
                Invoked, LogError (''PANIC: OPNAME=svc ERR='' @ quote_plain ''boom''), PrintStack,
                Slept 2042000000, LogWarn ''Restarting service svc'',
                Invoked] Invoked = n + 1)
   \<and> \<not> failing (task (fails_in_phases 7 0 0 7))
   \<and> WithRestart quote_plain ''svc'' (fails_in_phases 7 0 0)
       = Some ([Invoked, Slept 1042000000, LogWarn ''Restarting service svc'',
                Invoked, Slept 2042000000, LogWarn ''Restarting service svc'',
                Invoked, Slept 4042000000, LogWarn ''Restarting service svc'',
                Invoked, Slept 8042000000, LogWarn ''Restarting service svc'',
                Invoked, Slept 16042000000, LogWarn ''Restarting service svc'',
                Invoked, Slept 32042000000, LogWarn ''Restarting service svc'',
                Invoked, Slept 64000000000, LogWarn ''Restarting service svc'',
                Invoked],
               Returned ())
   \<and> ExponentialBackoffMS 42 5 jitter maxBackoff = Returned (Some 32042)
   \<and> ExponentialBackoffMS 42 6 jitter maxBackoff = Returned (Some 64000)"
proof -
  note T = WithRestart_backs_off_after_fast_failures
    [where fmtv = quote_plain and opName = "''svc''"
      and world = "fails_twice (250 * Millisecond)"
      and tr = "[Invoked,
        Slept 1042000000, LogWarn ''Restarting service svc'',
        Invoked, LogError (''PANIC: OPNAME=svc ERR='' @ quote_plain ''boom''), PrintStack,
        Slept 2042000000, LogWarn ''Restarting service svc'',
        Invoked]"
      and r = "Returned ()" and i = 0 and attempt = 0 and tr0 = "[]"]
  have short: "failing (task (fails_twice (250 * Millisecond) 0))
   \<and> failing (task (fails_twice (250 * Millisecond) 1))
   \<and> \<not> failing (task (fails_twice (250 * Millisecond) 2))
   \<and> elapsed (fails_twice (250 * Millisecond) 0) < Second
   \<and> elapsed (fails_twice (250 * Millisecond) 1) < Second
   \<and> 0 \<le> draw (fails_twice (250 * Millisecond) 0)
   \<and> draw (fails_twice (250 * Millisecond) 0) < jitter
   \<and> 0 \<le> draw (fails_twice (250 * Millisecond) 1)
   \<and> draw (fails_twice (250 * Millisecond) 1) < jitter
   \<and> WithRestart quote_plain ''svc'' (fails_twice (250 * Millisecond))
       = Some ([Invoked,
                Slept 1042000000, LogWarn ''Restarting service svc'',
                Invoked, LogError (''PANIC: OPNAME=svc ERR='' @ quote_plain ''boom''), PrintStack,
                Slept 2042000000, LogWarn ''Restarting service svc'',
                Invoked],
               Returned ())
   \<and> ExponentialBackoffMS 42 0 jitter maxBackoff = Returned (Some 1042)
   \<and> ExponentialBackoffMS 42 1 jitter maxBackoff = Returned (Some 2042)
   \<and> (\<exists>n. \<not> failing (task (fails_twice (250 * Millisecond) n))
         \<and> (\<forall>k<n. failing (task (fails_twice (250 * Millisecond) k)))
         \<and> count_list
               [Invoked,
                Slept 1042000000, LogWarn ''Restarting service svc'',
                Invoked, LogError (''PANIC: OPNAME=svc ERR='' @ quote_plain ''boom''), PrintStack,
                Slept 2042000000, LogWarn ''Restarting service svc'',
                Invoked] Invoked = n + 1)"
    using T[THEN conjunct1] T[THEN conjunct2, THEN conjunct2, THEN conjunct1]
    by (simp add: fails_twice_def Millisecond_def Second_def jitter_def DontPanic_def)
  have h: "(\<forall>k<7. failing (task (fails_in_phases 7 0 0 k))
              \<and> elapsed (fails_in_phases 7 0 0 k) < minFunctionRuntimeSecs * Second
              \<and> 0 \<le> draw (fails_in_phases 7 0 0 k) \<and> draw (fails_in_phases 7 0 0 k) < jitter)
        \<and> \<not> failing (task (fails_in_phases 7 0 0 7))"
    by (simp add: fails_in_phases_def minFunctionRuntimeSecs_def Second_def Millisecond_def
        jitter_def)
  note L = WithRestart_backs_off_after_fast_failures
    [where fmtv = quote_plain and opName = "''svc''" and world = "fails_in_phases 7 0 0"
      and N = 7,
      THEN conjunct2, THEN conjunct2, THEN conjunct2, THEN conjunct2, THEN conjunct2,
      THEN conjunct2, THEN mp, OF h]
  have up: "[0..<7] = [0, 1, 2, 3, 4, 5, 6]"
    by (simp add: upt_rec)
  have long: "WithRestart quote_plain ''svc'' (fails_in_phases 7 0 0)
       = Some ([Invoked, Slept 1042000000, LogWarn ''Restarting service svc'',
                Invoked, Slept 2042000000, LogWarn ''Restarting service svc'',
                Invoked, Slept 4042000000, LogWarn ''Restarting service svc'',
                Invoked, Slept 8042000000, LogWarn ''Restarting service svc'',
                Invoked, Slept 16042000000, LogWarn ''Restarting service svc'',
                Invoked, Slept 32042000000, LogWarn ''Restarting service svc'',
                Invoked, Slept 64000000000, LogWarn ''Restarting service svc'',
                Invoked],
               Returned ())"
    using L[THEN conjunct1] unfolding up
    by (simp add: fails_in_phases_def DontPanic_def Millisecond_def)
  have five: "ExponentialBackoffMS 42 5 jitter maxBackoff = Returned (Some 32042)"
    using L[THEN conjunct2, rule_format, of 5] by (simp add: fails_in_phases_def)
  have six: "ExponentialBackoffMS 42 6 jitter maxBackoff = Returned (Some 64000)"
    using L[THEN conjunct2, rule_format, of 6] by (simp add: fails_in_phases_def)
  have ok: "\<not> failing (task (fails_in_phases 7 0 0 7))"
    by (simp add: fails_in_phases_def)
  show ?thesis
    by (intro conjI short[THEN conjunct1]
        short[THEN conjunct2, THEN conjunct1]
        short[THEN conjunct2, THEN conjunct2, THEN conjunct1]
        short[THEN conjunct2, THEN conjunct2, THEN conjunct2, THEN conjunct1]
        short[THEN conjunct2, THEN conjunct2, THEN conjunct2, THEN conjunct2, THEN conjunct1]
        short[THEN conjunct2, THEN conjunct2, THEN conjunct2, THEN conjunct2, THEN conjunct2,
          THEN conjunct1]
        short[THEN conjunct2, THEN conjunct2, THEN conjunct2, THEN conjunct2, THEN conjunct2,
          THEN conjunct2, THEN conjunct1]
        short[THEN conjunct2, THEN conjunct2, THEN conjunct2, THEN conjunct2, THEN conjunct2,
          THEN conjunct2, THEN conjunct2, THEN conjunct1]
        short[THEN conjunct2, THEN conjunct2, THEN conjunct2, THEN conjunct2, THEN conjunct2,
          THEN conjunct2, THEN conjunct2, THEN conjunct2, THEN conjunct1]
        short[THEN conjunct2, THEN conjunct2, THEN conjunct2, THEN conjunct2, THEN conjunct2,
          THEN conjunct2, THEN conjunct2, THEN conjunct2, THEN conjunct2, THEN conjunct1]
        short[THEN conjunct2, THEN conjunct2, THEN conjunct2, THEN conjunct2, THEN conjunct2,
          THEN conjunct2, THEN conjunct2, THEN conjunct2, THEN conjunct2, THEN conjunct2,
          THEN conjunct1]
        short[THEN conjunct2, THEN conjunct2, THEN conjunct2, THEN conjunct2, THEN conjunct2,
          THEN conjunct2, THEN conjunct2, THEN conjunct2, THEN conjunct2, THEN conjunct2,
          THEN conjunct2, THEN conjunct1]
        short[THEN conjunct2, THEN conjunct2, THEN conjunct2, THEN conjunct2, THEN conjunct2,
          THEN conjunct2, THEN conjunct2, THEN conjunct2, THEN conjunct2, THEN conjunct2,
          THEN conjunct2, THEN conjunct2]
        ok long five six)
qed

text \<open>
  C4. After a failed invocation whose elapsed time is at least 60 seconds, \<open>WithRestart\<close>
  goes on with \<open>attempt = 0\<close> and without a sleep, whatever \<open>attempt\<close> was. So a quick
  failure right after it is backed off at attempts 0. When the task fails twice after
  running 60 seconds or more and then succeeds, it is invoked 3 times and the run never
  sleeps.

  And it does return. From any pass \<open>i\<close>, value of \<open>attempt\<close> and events so far, when the task
  fails \<open>n\<close> times and then succeeds, the loop returns and has invoked the task \<open>n + 1\<close>
  times more. When it fails \<open>n \<ge> 1\<close> times after 60 seconds or more, then \<open>m\<close> times quickly,
  and then succeeds, the run is known event by event, and it does not depend on \<open>attempt\<close>:
  no sleep after the long failures, and after the \<open>k\<close>-th quick one the sleep for the
  backoff at attempts \<open>k\<close>, counted from 0 again. For \<open>WithRestart\<close> after \<open>p\<close> quick failures,
  \<open>n \<ge> 1\<close> long ones and \<open>m\<close> quick ones that is \<open>p + n + m + 1\<close> invocations and \<open>p + m\<close>
  sleeps, for the backoffs at attempts \<open>0, ..., p - 1\<close> and then \<open>0, ..., m - 1\<close>.
\<close>

theorem WithRestart_resets_after_long_failures:
  "(failing (task (world i)) \<and> minFunctionRuntimeSecs * Second \<le> elapsed (world i) \<longrightarrow>
      WithRestart_loop fmtv opName world i attempt tr0
        = WithRestart_loop fmtv opName world (Suc i) 0
            (tr0 @ snd (DontPanic fmtv opName (task (world i)))
               @ [LogWarn (''Restarting service '' @ opName)]))
   \<and> (failing (task (world i)) \<and> minFunctionRuntimeSecs * Second \<le> elapsed (world i)
        \<and> failing (task (world (Suc i)))
        \<and> elapsed (world (Suc i)) < minFunctionRuntimeSecs * Second
        \<and> 0 \<le> draw (world (Suc i)) \<and> draw (world (Suc i)) < jitter \<longrightarrow>
      WithRestart_loop fmtv opName world i attempt tr0
        = WithRestart_loop fmtv opName world (Suc (Suc i)) 1
            (tr0 @ snd (DontPanic fmtv opName (task (world i)))
               @ [LogWarn (''Restarting service '' @ opName)]
               @ snd (DontPanic fmtv opName (task (world (Suc i))))
               @ [Slept ((1000 + draw (world (Suc i))) * Millisecond),
                  LogWarn (''Restarting service '' @ opName)])
      \<and> ExponentialBackoffMS (draw (world (Suc i))) 0 jitter maxBackoff
          = Returned (Some (1000 + draw (world (Suc i)))))
   \<and> (failing (task (world 0)) \<and> failing (task (world 1)) \<and> \<not> failing (task (world 2))
        \<and> minFunctionRuntimeSecs * Second \<le> elapsed (world 0)
        \<and> minFunctionRuntimeSecs * Second \<le> elapsed (world 1) \<longrightarrow>
      (\<exists>trace. WithRestart fmtv opName world = Some (trace, Returned ())
         \<and> trace = snd (DontPanic fmtv opName (task (world 0)))
                 @ [LogWarn (''Restarting service '' @ opName)]
                 @ snd (DontPanic fmtv opName (task (world 1)))
                 @ [LogWarn (''Restarting service '' @ opName)]
                 @ [Invoked]
         \<and> count_list trace Invoked = 3
         \<and> filter is_sleep trace = []))
   \<and> ((\<forall>k<n. failing (task (world (i + k)))) \<and> \<not> failing (task (world (i + n))) \<longrightarrow>
      (\<exists>trace. WithRestart_loop fmtv opName world i attempt tr0 = Some (trace, Returned ())
         \<and> count_list trace Invoked = count_list tr0 Invoked + n + 1))
   \<and> ((\<forall>k<n. failing (task (world (i + k)))
              \<and> minFunctionRuntimeSecs * Second \<le> elapsed (world (i + k)))
        \<and> 0 < n
        \<and> (\<forall>k<m. failing (task (world (i + n + k)))
              \<and> elapsed (world (i + n + k)) < minFunctionRuntimeSecs * Second
              \<and> 0 \<le> draw (world (i + n + k)) \<and> draw (world (i + n + k)) < jitter)
        \<and> \<not> failing (task (world (i + n + m))) \<longrightarrow>
      WithRestart_loop fmtv opName world i attempt tr0
        = Some (tr0
                 @ concat (map (\<lambda>k.
                     snd (DontPanic fmtv opName (task (world (i + k))))
                       @ [LogWarn (''Restarting service '' @ opName)]) [0..<n])
                 @ concat (map (\<lambda>k.
                     snd (DontPanic fmtv opName (task (world (i + n + k))))
                       @ [Slept (min (2 ^ k * 1000 + draw (world (i + n + k))) 64000 * Millisecond),
                          LogWarn (''Restarting service '' @ opName)]) [0..<m])
                 @ [Invoked],
                Returned ()))
   \<and> ((\<forall>k<p. failing (task (world k))
              \<and> elapsed (world k) < minFunctionRuntimeSecs * Second
              \<and> 0 \<le> draw (world k) \<and> draw (world k) < jitter)
        \<and> (\<forall>k<n. failing (task (world (p + k)))
              \<and> minFunctionRuntimeSecs * Second \<le> elapsed (world (p + k)))
        \<and> 0 < n
        \<and> (\<forall>k<m. failing (task (world (p + n + k)))
              \<and> elapsed (world (p + n + k)) < minFunctionRuntimeSecs * Second
              \<and> 0 \<le> draw (world (p + n + k)) \<and> draw (world (p + n + k)) < jitter)
        \<and> \<not> failing (task (world (p + n + m))) \<longrightarrow>
      (\<exists>trace. WithRestart fmtv opName world = Some (trace, Returned ())
         \<and> trace
             = concat (map (\<lambda>k.
                   snd (DontPanic fmtv opName (task (world k)))
                     @ [Slept (min (2 ^ k * 1000 + draw (world k)) 64000 * Millisecond),
                        LogWarn (''Restarting service '' @ opName)]) [0..<p])
               @ concat (map (\<lambda>k.
                   snd (DontPanic fmtv opName (task (world (p + k))))
                     @ [LogWarn (''Restarting service '' @ opName)]) [0..<n])
               @ concat (map (\<lambda>k.
                   snd (DontPanic fmtv opName (task (world (p + n + k))))
                     @ [Slept (min (2 ^ k * 1000 + draw (world (p + n + k))) 64000 * Millisecond),
                        LogWarn (''Restarting service '' @ opName)]) [0..<m])
               @ [Invoked]
         \<and> count_list trace Invoked = p + n + m + 1
         \<and> filter is_sleep trace
             = map (\<lambda>k. Slept (min (2 ^ k * 1000 + draw (world k)) 64000 * Millisecond)) [0..<p]
               @ map (\<lambda>k. Slept (min (2 ^ k * 1000 + draw (world (p + n + k))) 64000
                                  * Millisecond)) [0..<m]))"
proof (intro conjI impI)
  assume h: "failing (task (world i)) \<and> minFunctionRuntimeSecs * Second \<le> elapsed (world i)"
  then show "WithRestart_loop fmtv opName world i attempt tr0
        = WithRestart_loop fmtv opName world (Suc i) 0
            (tr0 @ snd (DontPanic fmtv opName (task (world i)))
               @ [LogWarn (''Restarting service '' @ opName)])"
    by (intro WithRestart_loop_slow) auto
next
  assume h: "failing (task (world i)) \<and> minFunctionRuntimeSecs * Second \<le> elapsed (world i)
        \<and> failing (task (world (Suc i)))
        \<and> elapsed (world (Suc i)) < minFunctionRuntimeSecs * Second
        \<and> 0 \<le> draw (world (Suc i)) \<and> draw (world (Suc i)) < jitter"
  from h show "ExponentialBackoffMS (draw (world (Suc i))) 0 jitter maxBackoff
          = Returned (Some (1000 + draw (world (Suc i))))"
    by (intro backoff_at_0) auto
  have b: "Backoff (draw (world (Suc i))) 0 jitter maxBackoff
             = Returned [Slept ((1000 + draw (world (Suc i))) * Millisecond)]"
    using h by (intro backoff_at_0) auto
  have f0: "failing (task (world i))" and f1: "failing (task (world (Suc i)))"
    and e0: "minFunctionRuntimeSecs * Second \<le> elapsed (world i)"
    and e1: "elapsed (world (Suc i)) < minFunctionRuntimeSecs * Second"
    using h by simp_all
  show "WithRestart_loop fmtv opName world i attempt tr0
        = WithRestart_loop fmtv opName world (Suc (Suc i)) 1
            (tr0 @ snd (DontPanic fmtv opName (task (world i)))
               @ [LogWarn (''Restarting service '' @ opName)]
               @ snd (DontPanic fmtv opName (task (world (Suc i))))
               @ [Slept ((1000 + draw (world (Suc i))) * Millisecond),
                  LogWarn (''Restarting service '' @ opName)])"
    unfolding WithRestart_loop_slow[where world = world and i = i, OF f0 e0]
      WithRestart_loop_fast[where world = world and i = "Suc i", OF f1 e1 b]
    by simp
next
  assume h: "failing (task (world 0)) \<and> failing (task (world 1)) \<and> \<not> failing (task (world 2))
        \<and> minFunctionRuntimeSecs * Second \<le> elapsed (world 0)
        \<and> minFunctionRuntimeSecs * Second \<le> elapsed (world 1)"
  have f0: "failing (task (world 0))" and f1: "failing (task (world (Suc 0)))"
    and s2: "\<not> failing (task (world (Suc (Suc 0))))"
    and e0: "minFunctionRuntimeSecs * Second \<le> elapsed (world 0)"
    and e1: "minFunctionRuntimeSecs * Second \<le> elapsed (world (Suc 0))"
    using h by (simp_all add: numeral_2_eq_2)
  have run: "WithRestart fmtv opName world
      = Some (snd (DontPanic fmtv opName (task (world 0)))
                 @ [LogWarn (''Restarting service '' @ opName)]
                 @ snd (DontPanic fmtv opName (task (world 1)))
                 @ [LogWarn (''Restarting service '' @ opName)]
                 @ [Invoked], Returned ())"
    unfolding WithRestart_def
      WithRestart_loop_slow[where world = world and i = 0, OF f0 e0]
      WithRestart_loop_slow[where world = world and i = "Suc 0", OF f1 e1]
      WithRestart_loop_success[where world = world and i = "Suc (Suc 0)", OF s2]
    by simp
  show "\<exists>trace. WithRestart fmtv opName world = Some (trace, Returned ())
         \<and> trace = snd (DontPanic fmtv opName (task (world 0)))
                 @ [LogWarn (''Restarting service '' @ opName)]
                 @ snd (DontPanic fmtv opName (task (world 1)))
                 @ [LogWarn (''Restarting service '' @ opName)]
                 @ [Invoked]
         \<and> count_list trace Invoked = 3
         \<and> filter is_sleep trace = []"
    unfolding run by (simp add: DontPanic_events)
next
  assume h: "(\<forall>k<n. failing (task (world (i + k)))) \<and> \<not> failing (task (world (i + n)))"
  then show "\<exists>trace. WithRestart_loop fmtv opName world i attempt tr0 = Some (trace, Returned ())
         \<and> count_list trace Invoked = count_list tr0 Invoked + n + 1"
    using WithRestart_loop_counts[where world = world and i = i and n = n and fmtv = fmtv
        and opName = opName and attempt = attempt and tr = tr0]
    by blast
next
  assume h: "(\<forall>k<n. failing (task (world (i + k)))
              \<and> minFunctionRuntimeSecs * Second \<le> elapsed (world (i + k)))
        \<and> 0 < n
        \<and> (\<forall>k<m. failing (task (world (i + n + k)))
              \<and> elapsed (world (i + n + k)) < minFunctionRuntimeSecs * Second
              \<and> 0 \<le> draw (world (i + n + k)) \<and> draw (world (i + n + k)) < jitter)
        \<and> \<not> failing (task (world (i + n + m)))"
  then show "WithRestart_loop fmtv opName world i attempt tr0
        = Some (tr0
                 @ concat (map (\<lambda>k.
                     snd (DontPanic fmtv opName (task (world (i + k))))
                       @ [LogWarn (''Restarting service '' @ opName)]) [0..<n])
                 @ concat (map (\<lambda>k.
                     snd (DontPanic fmtv opName (task (world (i + n + k))))
                       @ [Slept (min (2 ^ k * 1000 + draw (world (i + n + k))) 64000 * Millisecond),
                          LogWarn (''Restarting service '' @ opName)]) [0..<m])
                 @ [Invoked],
                Returned ())"
    by (intro WithRestart_loop_slow_then_fast) simp_all
next
  assume h: "(\<forall>k<p. failing (task (world k))
              \<and> elapsed (world k) < minFunctionRuntimeSecs * Second
              \<and> 0 \<le> draw (world k) \<and> draw (world k) < jitter)
        \<and> (\<forall>k<n. failing (task (world (p + k)))
              \<and> minFunctionRuntimeSecs * Second \<le> elapsed (world (p + k)))
        \<and> 0 < n
        \<and> (\<forall>k<m. failing (task (world (p + n + k)))
              \<and> elapsed (world (p + n + k)) < minFunctionRuntimeSecs * Second
              \<and> 0 \<le> draw (world (p + n + k)) \<and> draw (world (p + n + k)) < jitter)
        \<and> \<not> failing (task (world (p + n + m)))"
  then have fast: "\<forall>k<p. failing (task (world (0 + k)))
              \<and> elapsed (world (0 + k)) < minFunctionRuntimeSecs * Second
              \<and> 0 \<le> draw (world (0 + k)) \<and> draw (world (0 + k)) < jitter"
    by simp
  have rest: "WithRestart_loop fmtv opName world p a t
        = Some (t
                 @ concat (map (\<lambda>k.
                     snd (DontPanic fmtv opName (task (world (p + k))))
                       @ [LogWarn (''Restarting service '' @ opName)]) [0..<n])
                 @ concat (map (\<lambda>k.
                     snd (DontPanic fmtv opName (task (world (p + n + k))))
                       @ [Slept (min (2 ^ k * 1000 + draw (world (p + n + k))) 64000 * Millisecond),
                          LogWarn (''Restarting service '' @ opName)]) [0..<m])
                 @ [Invoked],
                Returned ())" for a t
    using h by (intro WithRestart_loop_slow_then_fast) simp_all
  have run: "WithRestart fmtv opName world
      = Some (concat (map (\<lambda>k.
                   snd (DontPanic fmtv opName (task (world k)))
                     @ [Slept (min (2 ^ k * 1000 + draw (world k)) 64000 * Millisecond),
                        LogWarn (''Restarting service '' @ opName)]) [0..<p])
               @ concat (map (\<lambda>k.
                   snd (DontPanic fmtv opName (task (world (p + k))))
                     @ [LogWarn (''Restarting service '' @ opName)]) [0..<n])
               @ concat (map (\<lambda>k.
                   snd (DontPanic fmtv opName (task (world (p + n + k))))
                     @ [Slept (min (2 ^ k * 1000 + draw (world (p + n + k))) 64000 * Millisecond),
                        LogWarn (''Restarting service '' @ opName)]) [0..<m])
               @ [Invoked], Returned ())"
    unfolding WithRestart_def
      WithRestart_loop_fast_run[where world = world and i = 0 and m = p and attempt = 0,
        OF fast order_refl]
    by (simp add: rest)
  show "\<exists>trace. WithRestart fmtv opName world = Some (trace, Returned ())
         \<and> trace
             = concat (map (\<lambda>k.
                   snd (DontPanic fmtv opName (task (world k)))
                     @ [Slept (min (2 ^ k * 1000 + draw (world k)) 64000 * Millisecond),
                        LogWarn (''Restarting service '' @ opName)]) [0..<p])
               @ concat (map (\<lambda>k.
                   snd (DontPanic fmtv opName (task (world (p + k))))
                     @ [LogWarn (''Restarting service '' @ opName)]) [0..<n])
               @ concat (map (\<lambda>k.
                   snd (DontPanic fmtv opName (task (world (p + n + k))))
                     @ [Slept (min (2 ^ k * 1000 + draw (world (p + n + k))) 64000 * Millisecond),
                        LogWarn (''Restarting service '' @ opName)]) [0..<m])
               @ [Invoked]
         \<and> count_list trace Invoked = p + n + m + 1
         \<and> filter is_sleep trace
             = map (\<lambda>k. Slept (min (2 ^ k * 1000 + draw (world k)) 64000 * Millisecond)) [0..<p]
               @ map (\<lambda>k. Slept (min (2 ^ k * 1000 + draw (world (p + n + k))) 64000
                                  * Millisecond)) [0..<m]"
    unfolding run
    by (simp add: filter_is_sleep_fast_passes filter_is_sleep_slow_passes
        count_Invoked_fast_passes count_Invoked_slow_passes)
qed

text \<open>
  C4 in the world \<open>fails_twice\<close> with passes of 61 s, in \<open>fails_thrice\<close>, where the quick
  failure after the long one is backed off at attempts 0 again (1042 ms, not 4042), and in
  \<open>fails_in_phases 2 2 2\<close>, where the sleeps are of 1042, 2042, 1042 and 2042 ms.
\<close>

theorem WithRestart_resets_after_long_failures_witness:
  "failing (task (fails_twice (61 * Second) 0))
   \<and> failing (task (fails_twice (61 * Second) 1))
   \<and> \<not> failing (task (fails_twice (61 * Second) 2))
   \<and> minFunctionRuntimeSecs * Second \<le> elapsed (fails_twice (61 * Second) 0)
   \<and> minFunctionRuntimeSecs * Second \<le> elapsed (fails_twice (61 * Second) 1)
   \<and> WithRestart quote_plain ''svc'' (fails_twice (61 * Second))
       = Some ([Invoked, LogWarn ''Restarting service svc'',
                Invoked, LogError (''PANIC: OPNAME=svc ERR='' @ quote_plain ''boom''), PrintStack,
                LogWarn ''Restarting service svc'',
                Invoked],
               Returned ())
   \<and> failing (task (fails_thrice 1))
   \<and> minFunctionRuntimeSecs * Second \<le> elapsed (fails_thrice 1)
   \<and> failing (task (fails_thrice 2))
   \<and> elapsed (fails_thrice 2) < minFunctionRuntimeSecs * Second
   \<and> 0 \<le> draw (fails_thrice 2) \<and> draw (fails_thrice 2) < jitter
   \<and> WithRestart quote_plain ''svc'' fails_thrice
       = Some ([Invoked, Slept 1042000000, LogWarn ''Restarting service svc'',
                Invoked, LogWarn ''Restarting service svc'',
                Invoked, Slept 1042000000, LogWarn ''Restarting service svc'',
                Invoked],
               Returned ())
   \<and> \<not> failing (task (fails_in_phases 2 2 2 6))
   \<and> WithRestart quote_plain ''svc'' (fails_in_phases 2 2 2)
       = Some ([Invoked, Slept 1042000000, LogWarn ''Restarting service svc'',
                Invoked, Slept 2042000000, LogWarn ''Restarting service svc'',
                Invoked, LogWarn ''Restarting service svc'',
                Invoked, LogWarn ''Restarting service svc'',
                Invoked, Slept 1042000000, LogWarn ''Restarting service svc'',
                Invoked, Slept 2042000000, LogWarn ''Restarting service svc'',
                Invoked],
               Returned ())"
proof -
  have first: "WithRestart quote_plain ''svc'' fails_thrice
      = WithRestart_loop quote_plain ''svc'' fails_thrice 1 1
          [Invoked, Slept 1042000000, LogWarn ''Restarting service svc'']"
  proof -
    have "Backoff (draw (fails_thrice 0)) 0 jitter maxBackoff
            = Returned [Slept ((1000 + draw (fails_thrice 0)) * Millisecond)]"
      by (rule backoff_at_0) (simp_all add: fails_thrice_def jitter_def)
    then have "WithRestart_loop quote_plain ''svc'' fails_thrice 0 0 []
        = WithRestart_loop quote_plain ''svc'' fails_thrice (Suc 0) (0 + 1)
            ([] @ snd (DontPanic quote_plain ''svc'' (task (fails_thrice 0)))
               @ [Slept ((1000 + draw (fails_thrice 0)) * Millisecond)]
               @ [LogWarn (''Restarting service '' @ ''svc'')])"
      by (intro WithRestart_loop_fast)
        (simp_all add: fails_thrice_def Millisecond_def Second_def minFunctionRuntimeSecs_def)
    then show ?thesis
      by (simp add: WithRestart_def fails_thrice_def DontPanic_def Millisecond_def)
  qed
  have last: "WithRestart_loop quote_plain ''svc'' fails_thrice (Suc (Suc (Suc 0))) 1 tr
      = Some (tr @ [Invoked], Returned ())" for tr
    by (rule WithRestart_loop_success) (simp add: fails_thrice_def)
  have middle: "WithRestart_loop quote_plain ''svc'' fails_thrice 1 1
        [Invoked, Slept 1042000000, LogWarn ''Restarting service svc'']
      = Some ([Invoked, Slept 1042000000, LogWarn ''Restarting service svc'',
               Invoked, LogWarn ''Restarting service svc'',
               Invoked, Slept 1042000000, LogWarn ''Restarting service svc'',
               Invoked],
              Returned ())"
    using WithRestart_resets_after_long_failures
      [of fails_thrice 1 quote_plain "''svc''" 1
        "[Invoked, Slept 1042000000, LogWarn ''Restarting service svc'']",
        THEN conjunct2, THEN conjunct1]
    by (simp add: last fails_thrice_def Millisecond_def Second_def
        minFunctionRuntimeSecs_def jitter_def DontPanic_def)
  have phases: "(\<forall>k<2. failing (task (fails_in_phases 2 2 2 k))
              \<and> elapsed (fails_in_phases 2 2 2 k) < minFunctionRuntimeSecs * Second
              \<and> 0 \<le> draw (fails_in_phases 2 2 2 k) \<and> draw (fails_in_phases 2 2 2 k) < jitter)
        \<and> (\<forall>k<2. failing (task (fails_in_phases 2 2 2 (2 + k)))
              \<and> minFunctionRuntimeSecs * Second \<le> elapsed (fails_in_phases 2 2 2 (2 + k)))
        \<and> (0::nat) < 2
        \<and> (\<forall>k<2. failing (task (fails_in_phases 2 2 2 (2 + 2 + k)))
              \<and> elapsed (fails_in_phases 2 2 2 (2 + 2 + k)) < minFunctionRuntimeSecs * Second
              \<and> 0 \<le> draw (fails_in_phases 2 2 2 (2 + 2 + k))
              \<and> draw (fails_in_phases 2 2 2 (2 + 2 + k)) < jitter)
        \<and> \<not> failing (task (fails_in_phases 2 2 2 (2 + 2 + 2)))"
    by (simp add: fails_in_phases_def minFunctionRuntimeSecs_def Second_def Millisecond_def
        jitter_def)
  have up: "[0..<2] = [0, 1]"
    by (simp add: upt_rec)
  have mixed: "WithRestart quote_plain ''svc'' (fails_in_phases 2 2 2)
       = Some ([Invoked, Slept 1042000000, LogWarn ''Restarting service svc'',
                Invoked, Slept 2042000000, LogWarn ''Restarting service svc'',
                Invoked, LogWarn ''Restarting service svc'',
                Invoked, LogWarn ''Restarting service svc'',
                Invoked, Slept 1042000000, LogWarn ''Restarting service svc'',
                Invoked, Slept 2042000000, LogWarn ''Restarting service svc'',
                Invoked],
               Returned ())"
    using WithRestart_resets_after_long_failures
      [where fmtv = quote_plain and opName = "''svc''" and world = "fails_in_phases 2 2 2"
        and p = 2 and n = 2 and m = 2,
        THEN conjunct2, THEN conjunct2, THEN conjunct2, THEN conjunct2, THEN conjunct2,
        THEN mp, OF phases]
    unfolding up
    by (simp add: fails_in_phases_def DontPanic_def Millisecond_def)
  have ok: "\<not> failing (task (fails_in_phases 2 2 2 6))"
    by (simp add: fails_in_phases_def)
  have short: "failing (task (fails_twice (61 * Second) 0))
   \<and> failing (task (fails_twice (61 * Second) 1))
   \<and> \<not> failing (task (fails_twice (61 * Second) 2))
   \<and> minFunctionRuntimeSecs * Second \<le> elapsed (fails_twice (61 * Second) 0)
   \<and> minFunctionRuntimeSecs * Second \<le> elapsed (fails_twice (61 * Second) 1)
   \<and> WithRestart quote_plain ''svc'' (fails_twice (61 * Second))
       = Some ([Invoked, LogWarn ''Restarting service svc'',
                Invoked, LogError (''PANIC: OPNAME=svc ERR='' @ quote_plain ''boom''), PrintStack,
                LogWarn ''Restarting service svc'',
                Invoked],
               Returned ())
   \<and> failing (task (fails_thrice 1))
   \<and> minFunctionRuntimeSecs * Second \<le> elapsed (fails_thrice 1)
   \<and> failing (task (fails_thrice 2))
   \<and> elapsed (fails_thrice 2) < minFunctionRuntimeSecs * Second
   \<and> 0 \<le> draw (fails_thrice 2) \<and> draw (fails_thrice 2) < jitter
   \<and> WithRestart quote_plain ''svc'' fails_thrice
       = Some ([Invoked, Slept 1042000000, LogWarn ''Restarting service svc'',
                Invoked, LogWarn ''Restarting service svc'',
                Invoked, Slept 1042000000, LogWarn ''Restarting service svc'',
                Invoked],
               Returned ())"
    using WithRestart_resets_after_long_failures
      [of "fails_twice (61 * Second)" 0 quote_plain "''svc''" 0 "[]",
        THEN conjunct2, THEN conjunct2, THEN conjunct1]
    unfolding first middle
    by (simp add: fails_twice_def fails_thrice_def Millisecond_def Second_def
        minFunctionRuntimeSecs_def jitter_def DontPanic_def)
  show ?thesis
    using short ok mixed by simp
qed

text \<open>
  C5. When the task fails on its first \<open>N\<close> invocations and succeeds on the next,
  \<open>UntilSuccessful\<close> returns after invoking it \<open>N + 1\<close> times. It sleeps once after each
  failure, however long the invocation took, and the \<open>i\<close>-th sleep is the backoff
  \<open>ExponentialBackoffMS(i, 100, 64000)\<close> for \<open>i = 0, ..., N - 1\<close>. An invocation fails when
  \<open>DontPanic\<close> reports an error for it.
\<close>

theorem UntilSuccessful_retries_with_backoff:
  assumes "\<forall>i<N. failing (task (world i))"
    and "\<not> failing (task (world N))"
    and "\<forall>i<N. 0 \<le> draw (world i) \<and> draw (world i) < jitter"
  shows "\<exists>trace. UntilSuccessful fmtv opName world = Some (trace, Returned ())
           \<and> trace = concat (map (\<lambda>i.
                   snd (DontPanic fmtv opName (task (world i)))
                     @ [LogWarn (''Operation '' @ opName
                          @ '' failed.  The operation will be retried.''),
                        Slept (min (2 ^ i * 1000 + draw (world i)) 64000 * Millisecond),
                        LogWarn (''Retrying operation '' @ opName)]) [0..<N])
                 @ [Invoked]
           \<and> count_list trace Invoked = N + 1
           \<and> filter is_sleep trace
               = map (\<lambda>i. Slept (min (2 ^ i * 1000 + draw (world i)) 64000 * Millisecond)) [0..<N]
           \<and> (\<forall>i<N. ExponentialBackoffMS (draw (world i)) (int i) jitter maxBackoff
                        = Returned (Some (min (2 ^ i * 1000 + draw (world i)) 64000)))"
proof -
  let ?pass = "\<lambda>i. snd (DontPanic fmtv opName (task (world i)))
                     @ [LogWarn (''Operation '' @ opName
                          @ '' failed.  The operation will be retried.''),
                        Slept (min (2 ^ i * 1000 + draw (world i)) 64000 * Millisecond),
                        LogWarn (''Retrying operation '' @ opName)]"
  have hyp: "\<forall>k<N. failing (task (world (0 + k)))
              \<and> 0 \<le> draw (world (0 + k)) \<and> draw (world (0 + k)) < jitter"
    using assms(1,3) by simp
  have last: "\<not> failing (task (world (0 + N)))" using assms(2) by simp
  have run: "UntilSuccessful fmtv opName world
               = Some (concat (map ?pass [0..<N]) @ [Invoked], Returned ())"
    unfolding UntilSuccessful_def
      UntilSuccessful_loop_run[where world = world and i = 0 and n = N and attempt = 0,
        OF hyp last order_refl]
    by (simp add: Millisecond_def)
  have cnt: "count_list (concat (map ?pass [0..<N])) Invoked = length [0..<N]"
    by (rule count_concat_map_one) (simp add: DontPanic_events)
  have slp: "filter is_sleep (concat (map ?pass [0..<N]))
      = map (\<lambda>i. Slept (min (2 ^ i * 1000 + draw (world i)) 64000 * Millisecond)) [0..<N]"
    by (rule is_sleep_concat_map) (simp add: DontPanic_events)
  have eb: "\<forall>i<N. ExponentialBackoffMS (draw (world i)) (int i) jitter maxBackoff
                        = Returned (Some (min (2 ^ i * 1000 + draw (world i)) 64000))"
  proof (intro allI impI)
    fix i assume "i < N"
    then have "0 \<le> draw (world i)" "draw (world i) < jitter" using assms(3) by simp_all
    then show "ExponentialBackoffMS (draw (world i)) (int i) jitter maxBackoff
                        = Returned (Some (min (2 ^ i * 1000 + draw (world i)) 64000))"
      using ExponentialBackoffMS_exact[of "int i" "draw (world i)" jitter maxBackoff]
      by (simp add: maxBackoff_def)
  qed
  show ?thesis
    unfolding run using cnt slp eb by simp
qed

text \<open>C5 in the world \<open>fails_thrice\<close>, whose second pass takes 61 s: \<open>N = 3\<close>.\<close>

theorem UntilSuccessful_retries_with_backoff_witness:
  "failing (task (fails_thrice 0)) \<and> failing (task (fails_thrice 1))
   \<and> failing (task (fails_thrice 2)) \<and> \<not> failing (task (fails_thrice 3))
   \<and> 0 \<le> draw (fails_thrice 0) \<and> draw (fails_thrice 0) < jitter
   \<and> 0 \<le> draw (fails_thrice 1) \<and> draw (fails_thrice 1) < jitter
   \<and> 0 \<le> draw (fails_thrice 2) \<and> draw (fails_thrice 2) < jitter
   \<and> UntilSuccessful quote_plain ''db'' fails_thrice
       = Some ([Invoked, LogWarn ''Operation db failed.  The operation will be retried.'',
                Slept 1042000000, LogWarn ''Retrying operation db'',
                Invoked, LogWarn ''Operation db failed.  The operation will be retried.'',
                Slept 2042000000, LogWarn ''Retrying operation db'',
                Invoked, LogWarn ''Operation db failed.  The operation will be retried.'',
                Slept 4042000000, LogWarn ''Retrying operation db'',
                Invoked],
               Returned ())"
proof -
  have h1: "\<forall>i<3. failing (task (fails_thrice i))" by (simp add: fails_thrice_def)
  have h2: "\<not> failing (task (fails_thrice 3))" by (simp add: fails_thrice_def)
  have h3: "\<forall>i<3. 0 \<le> draw (fails_thrice i) \<and> draw (fails_thrice i) < jitter"
    by (simp add: fails_thrice_def jitter_def)
  have up: "[0..<3] = [0, 1, 2]" by (simp add: numeral_3_eq_3)
  from UntilSuccessful_retries_with_backoff[of 3 fails_thrice quote_plain "''db''", OF h1 h2 h3]
  show ?thesis
    unfolding up
    by (simp add: fails_thrice_def jitter_def DontPanic_def Millisecond_def)
qed




end
